theory Spec2Isabelle
  imports Complex_Main "HOL-Library.Word" "HOL-Library.Sublist" "HOL-Library.Log_Nat"
begin

section \<open>JavaScript values used by the three widgets\<close>

text \<open>
  A JavaScript string is a sequence of 16-bit code units. String literals of the source are
  written with \<open>str\<close>; the few code units beyond ASCII are given by number.
\<close>

type_synonym jsstring = "16 word list"

definition str :: "string \<Rightarrow> jsstring" where
  "str s = map of_char s"

text \<open>
  White space as \<^verbatim>\<open>String.prototype.trim\<close> and the regular expression class
  \<^verbatim>\<open>\s\<close> understand it: the WhiteSpace and LineTerminator code points of ECMAScript.
\<close>

definition is_ws :: "16 word \<Rightarrow> bool" where
  "is_ws c \<longleftrightarrow>
     c = 0x0009 \<or> c = 0x000A \<or> c = 0x000B \<or> c = 0x000C \<or> c = 0x000D \<or> c = 0x0020 \<or>
     c = 0x00A0 \<or> c = 0x1680 \<or> (0x2000 \<le> c \<and> c \<le> 0x200A) \<or> c = 0x2028 \<or> c = 0x2029 \<or>
     c = 0x202F \<or> c = 0x205F \<or> c = 0x3000 \<or> c = 0xFEFF"

definition trim :: "jsstring \<Rightarrow> jsstring" where
  "trim s = rev (dropWhile is_ws (rev (dropWhile is_ws s)))"

text \<open>
  Decimal rendering of a non-negative integer, as a template literal renders a number
  (integers below \<open>10^21\<close> print as plain digits).
\<close>

definition digit :: "nat \<Rightarrow> 16 word" where
  "digit d = of_nat (48 + d)"

fun decimal :: "nat \<Rightarrow> jsstring" where
  "decimal n = (if n < 10 then [digit n] else decimal (n div 10) @ [digit (n mod 10)])"

text \<open>
  What \<^verbatim>\<open>JSON.parse\<close> returns. An object is the list of its own properties (keys
  unique, as the parser leaves them); a number carries the value of the double.
\<close>

datatype json =
    JNull
  | JBool bool
  | JNumber real
  | JString jsstring
  | JArray "json list"
  | JObject "(jsstring \<times> json) list"

text \<open>
  A JavaScript value that may also be \<^verbatim>\<open>undefined\<close>: \<open>None\<close> is undefined,
  \<open>Some JNull\<close> is null.
\<close>

type_synonym jsvalue = "json option"

definition nullish :: "jsvalue \<Rightarrow> bool" where
  "nullish v \<longleftrightarrow> v = None \<or> v = Some JNull"

text \<open>\<^verbatim>\<open>a ?? b\<close>\<close>

definition coalesce :: "jsvalue \<Rightarrow> jsvalue \<Rightarrow> jsvalue" where
  "coalesce a b = (if nullish a then b else a)"

text \<open>
  \<^verbatim>\<open>v.name\<close> on a value that is neither null nor undefined, for a name that no
  prototype defines (reply, content, message, choices): only an object has it.
\<close>

definition field :: "json \<Rightarrow> jsstring \<Rightarrow> jsvalue" where
  "field v name = (case v of JObject ps \<Rightarrow> map_of ps name | _ \<Rightarrow> None)"

text \<open>
  \<^verbatim>\<open>v[0]\<close> on a value that is neither null nor undefined: the first element of an
  array, the property \<^verbatim>\<open>"0"\<close> of an object, the first code unit of a string.
\<close>

definition index0 :: "json \<Rightarrow> jsvalue" where
  "index0 v =
     (case v of
        JArray xs \<Rightarrow> (case xs of [] \<Rightarrow> None | x # _ \<Rightarrow> Some x)
      | JObject ps \<Rightarrow> map_of ps (str ''0'')
      | JString s \<Rightarrow> (case s of [] \<Rightarrow> None | c # _ \<Rightarrow> Some (JString [c]))
      | _ \<Rightarrow> None)"

text \<open>\<^verbatim>\<open>a?.f\<close>: undefined when \<open>a\<close> is null or undefined, the access otherwise.\<close>

definition opt_chain :: "jsvalue \<Rightarrow> (json \<Rightarrow> jsvalue) \<Rightarrow> jsvalue" where
  "opt_chain a f = (case a of None \<Rightarrow> None | Some JNull \<Rightarrow> None | Some v \<Rightarrow> f v)"

text \<open>Truthiness, as \<^verbatim>\<open>||\<close> and \<^verbatim>\<open>!\<close> test it.\<close>

fun truthy :: "json \<Rightarrow> bool" where
  "truthy JNull = False"
| "truthy (JBool b) = b"
| "truthy (JNumber x) = (x \<noteq> 0)"
| "truthy (JString s) = (s \<noteq> [])"
| "truthy (JArray _) = True"
| "truthy (JObject _) = True"

text \<open>
  The value a promise rejects with, reduced to what the handlers read of it:
  \<^verbatim>\<open>e?.message\<close>, \<open>None\<close> when there is none. What \<^verbatim>\<open>fetch\<close> and
  \<^verbatim>\<open>Response.text\<close> reject with carries a string.
\<close>

datatype thrown = Thrown (message: "jsstring option")

text \<open>
  The outcome of \<^verbatim>\<open>await fetch(...)\<close>: a rejection, or a response of any status,
  whose body \<^verbatim>\<open>await res.text()\<close> reads or fails to read.
\<close>

datatype fetch_result =
    Rejected thrown
  | Resolved (r_status: nat) (r_statusText: jsstring) (r_text: "thrown + jsstring")

text \<open>\<^verbatim>\<open>Response.ok\<close>, as the Fetch standard defines it.\<close>

definition r_ok :: "nat \<Rightarrow> bool" where
  "r_ok st \<longleftrightarrow> 200 \<le> st \<and> st \<le> 299"

text \<open>The platform functions the widgets call, taken as parameters.\<close>

record runtime =
  JSON_parse :: "jsstring \<Rightarrow> json option"
  JSON_stringify :: "json \<Rightarrow> jsstring"
  JSON_stringify2 :: "json \<Rightarrow> jsstring"
  URL_origin :: "jsstring \<Rightarrow> jsstring option"

text \<open>
  \<open>JSON_parse\<close> is \<open>None\<close> where \<^verbatim>\<open>JSON.parse\<close> throws; \<open>JSON_stringify2\<close> is
  \<^verbatim>\<open>JSON.stringify(v, null, 2)\<close>; \<open>URL_origin\<close> is \<^verbatim>\<open>new URL(u).origin\<close>,
  \<open>None\<close> where the constructor throws.
\<close>

section \<open>AutoForgeTerminal\<close>

datatype role = User | Assistant | System

fun role_str :: "role \<Rightarrow> jsstring" where
  "role_str User = str ''user''"
| "role_str Assistant = str ''assistant''"
| "role_str System = str ''system''"

text \<open>
  The type says \<^verbatim>\<open>content: string\<close>; at run time the reply taken from the parsed body is
  any JSON value, so the content is one.
\<close>

record Msg =
  role :: role
  content :: json

record chat =
  messages :: "Msg list"
  input :: jsstring
  busy :: bool
  err :: "jsstring option"

definition chat_init :: chat where
  "chat_init = \<lparr>messages = [], input = [], busy = False, err = None\<rparr>"

record request =
  req_url :: jsstring
  req_method :: jsstring
  req_headers :: "(jsstring \<times> jsstring) list"
  req_body :: jsstring

definition origin :: "runtime \<Rightarrow> jsstring \<Rightarrow> jsstring" where
  "origin rt apiUrl = (case URL_origin rt apiUrl of Some orig \<Rightarrow> orig | None \<Rightarrow> apiUrl)"

text \<open>\<^verbatim>\<open>({ role, content }) => ({ role, content })\<close>, as the value that is serialised.\<close>

definition msg_json :: "Msg \<Rightarrow> json" where
  "msg_json m = JObject [(str ''role'', JString (role_str (role m))), (str ''content'', content m)]"

definition request_body :: "runtime \<Rightarrow> Msg list \<Rightarrow> jsstring \<Rightarrow> jsstring" where
  "request_body rt ms text =
     JSON_stringify rt
       (JObject [(str ''messages'',
          JArray (map msg_json ms @
                  [JObject [(str ''role'', JString (str ''user'')), (str ''content'', JString text)]]))])"

text \<open>
  \<open>send\<close> up to its first \<^verbatim>\<open>await\<close>: the guard, the state updates and the request.
  The handler reads \<open>input\<close>, \<open>busy\<close> and \<open>messages\<close> of the render it belongs to, which
  is the current state.
\<close>

definition send_begin :: "runtime \<Rightarrow> jsstring \<Rightarrow> chat \<Rightarrow> chat \<times> request option" where
  "send_begin rt apiUrl st =
     (let text = trim (input st) in
      if text = [] \<or> busy st then (st, None)
      else
        (st\<lparr>err := None, busy := True,
            messages := messages st @ [\<lparr>role = User, content = JString text\<rparr>],
            input := []\<rparr>,
         Some \<lparr>req_url = apiUrl, req_method = str ''POST'',
               req_headers = [(str ''Content-Type'', str ''application/json'')],
               req_body = request_body rt (messages st) text\<rparr>))"

text \<open>The body text the two awaits deliver, or what one of them threw.\<close>

definition awaited_text :: "fetch_result \<Rightarrow> thrown + jsstring" where
  "awaited_text r = (case r of Rejected e \<Rightarrow> Inl e | Resolved _ _ t \<Rightarrow> t)"

text \<open>
  The probe of the common response shapes, on a parsed body that is not null:
  \<^verbatim>\<open>json.reply ?? json.content ?? json.message ?? json.choices?.[0]?.message?.content ?? raw\<close>.
\<close>

definition nested_choice :: "json \<Rightarrow> jsvalue" where
  "nested_choice j =
     opt_chain (opt_chain (opt_chain (field j (str ''choices'')) index0)
                  (\<lambda>c. field c (str ''message'')))
       (\<lambda>m. field m (str ''content''))"

definition probe :: "json \<Rightarrow> jsstring \<Rightarrow> jsvalue" where
  "probe j raw =
     coalesce (coalesce (coalesce (coalesce (field j (str ''reply'')) (field j (str ''content'')))
                           (field j (str ''message'')))
                 (nested_choice j))
       (Some (JString raw))"

text \<open>\<^verbatim>\<open>raw || "(empty response)"\<close>, the handler of the inner \<^verbatim>\<open>try\<close>.\<close>

definition catch_reply :: "jsstring \<Rightarrow> json" where
  "catch_reply raw = JString (if raw \<noteq> [] then raw else str ''(empty response)'')"

text \<open>
  The inner \<^verbatim>\<open>try\<close>: \<^verbatim>\<open>raw ? JSON.parse(raw) : {}\<close>, then the probe. The handler
  runs when the parser throws and when the parsed body is null, on which
  \<^verbatim>\<open>json.reply\<close> throws a TypeError.
\<close>

definition resolve_reply :: "runtime \<Rightarrow> jsstring \<Rightarrow> json" where
  "resolve_reply rt raw =
     (case (if raw \<noteq> [] then JSON_parse rt raw else Some (JObject [])) of
        None \<Rightarrow> catch_reply raw
      | Some JNull \<Rightarrow> catch_reply raw
      | Some j \<Rightarrow> (case probe j raw of Some v \<Rightarrow> v | None \<Rightarrow> JString raw))"

text \<open>\<^verbatim>\<open>reply || "(no content)"\<close>\<close>

definition assistant_content :: "json \<Rightarrow> json" where
  "assistant_content reply = (if truthy reply then reply else JString (str ''(no content)''))"

text \<open>\<^verbatim>\<open>Math.max(0, Math.round(performance.now() - t0))\<close>\<close>

definition elapsed_ms :: "real \<Rightarrow> real \<Rightarrow> nat" where
  "elapsed_ms t0 t1 = nat (max 0 (round (t1 - t0)))"

definition status_line :: "nat \<Rightarrow> jsstring \<Rightarrow> jsstring" where
  "status_line ms orig =
     [0x2713] @ str '' responded in '' @ decimal ms @ str ''ms from '' @ orig"

definition failure_line :: jsstring where
  "failure_line = [0x00D7] @ str '' request failed''"

text \<open>\<^verbatim>\<open>e?.message || "Network error"\<close>\<close>

definition err_text :: "thrown \<Rightarrow> jsstring" where
  "err_text e =
     (case message e of
        None \<Rightarrow> str ''Network error''
      | Some m \<Rightarrow> (if m \<noteq> [] then m else str ''Network error''))"

text \<open>
  \<open>send\<close> from the first \<^verbatim>\<open>await\<close> on: the \<^verbatim>\<open>try\<close> body when both awaits
  deliver, the \<^verbatim>\<open>catch\<close> when one throws, and the \<^verbatim>\<open>finally\<close> after either. The
  state updates are the functional ones of the source, applied to the state of the moment.
\<close>

definition send_finish ::
    "runtime \<Rightarrow> jsstring \<Rightarrow> real \<Rightarrow> fetch_result \<Rightarrow> real \<Rightarrow> chat \<Rightarrow> chat" where
  "send_finish rt apiUrl t0 r t1 st =
     (case awaited_text r of
        Inr raw \<Rightarrow>
          st\<lparr>messages := messages st
                @ [\<lparr>role = Assistant, content = assistant_content (resolve_reply rt raw)\<rparr>]
                @ [\<lparr>role = System,
                     content = JString (status_line (elapsed_ms t0 t1) (origin rt apiUrl))\<rparr>],
             busy := False\<rparr>
      | Inl e \<Rightarrow>
          st\<lparr>err := Some (err_text e),
             messages := messages st @ [\<lparr>role = System, content = JString failure_line\<rparr>],
             busy := False\<rparr>)"

text \<open>
  The widget over time. \<open>Typed\<close> is the textarea's change handler, \<open>Submit\<close> a click or
  Enter at clock reading \<open>t0\<close>, \<open>Settled\<close> the moment the awaited request delivers or
  throws. \<open>inflight\<close> holds the clock reading of the suspended call of \<open>send\<close>, \<open>sent\<close>
  the requests handed to \<^verbatim>\<open>fetch\<close> so far.
\<close>

datatype chat_event = Typed jsstring | Submit real | Settled fetch_result real

record chat_world =
  ui :: chat
  inflight :: "real option"
  sent :: "request list"

definition world_init :: chat_world where
  "world_init = \<lparr>ui = chat_init, inflight = None, sent = []\<rparr>"

fun chat_step :: "runtime \<Rightarrow> jsstring \<Rightarrow> chat_world \<Rightarrow> chat_event \<Rightarrow> chat_world" where
  "chat_step rt apiUrl w (Typed s) = w\<lparr>ui := (ui w)\<lparr>input := s\<rparr>\<rparr>"
| "chat_step rt apiUrl w (Submit t0) =
     (case send_begin rt apiUrl (ui w) of
        (st, None) \<Rightarrow> w\<lparr>ui := st\<rparr>
      | (st, Some rq) \<Rightarrow> w\<lparr>ui := st, inflight := Some t0, sent := sent w @ [rq]\<rparr>)"
| "chat_step rt apiUrl w (Settled r t1) =
     (case inflight w of
        None \<Rightarrow> w
      | Some t0 \<Rightarrow> w\<lparr>ui := send_finish rt apiUrl t0 r t1 (ui w), inflight := None\<rparr>)"

definition chat_run :: "runtime \<Rightarrow> jsstring \<Rightarrow> chat_world \<Rightarrow> chat_event list \<Rightarrow> chat_world" where
  "chat_run rt apiUrl w evs = foldl (chat_step rt apiUrl) w evs"

section \<open>BitlockerPie\<close>

subsection \<open>Numbers\<close>

text \<open>
  The fields of a snapshot are JavaScript numbers, IEEE 754 doubles, and the pie adds and
  divides them. A number is NaN, an infinity, a zero or a finite non-zero value, given by
  the rational it denotes; the flag of an infinity or a zero is its sign, true for
  negative.
\<close>

datatype number = NaN | Infinity bool | Zero bool | Finite rat

text \<open>Two to the power of an integer.\<close>

definition pow2 :: "int \<Rightarrow> rat" where
  "pow2 k = (if 0 \<le> k then 2 ^ nat k else 1 / 2 ^ nat (- k))"

text \<open>The binary exponent of a positive rational: the \<open>e\<close> with \<open>2^e \<le> x < 2^(e+1)\<close>.\<close>

definition expo :: "rat \<Rightarrow> int" where
  "expo x = (if 1 \<le> x then bitlen \<lfloor>x\<rfloor> - 1 else - bitlen (\<lceil>1 / x\<rceil> - 1))"

text \<open>The integer nearest to a non-negative rational, the even one of two equally near.\<close>

definition round_even :: "rat \<Rightarrow> int" where
  "round_even z =
     (let q = \<lfloor>z\<rfloor>; r = z - of_int q in
      if r < 1 / 2 then q else if 1 / 2 < r then q + 1 else if even q then q else q + 1)"

text \<open>Two to the power of 1024, from which on a rounded magnitude is infinite.\<close>

definition overflow_threshold :: rat where
  "overflow_threshold =
     179769313486231590772930519078902473361797697894230657273430081157732675805500963132708477322407536021120113879871393357658789768814416622492847430639474124377767893424865485276302219601246094119453082952085005768838150682342462881473913110540827237163350510684586298239947245938479716304835356329624224137216"

text \<open>
  The double that an exact result \<open>x\<close> is rounded to, to nearest with ties to even: 53
  significant bits from the binary exponent of \<open>x\<close> on, the exponent not below -1022
  (beneath it the spacing stays that of the subnormal numbers). An exact zero is the
  positive zero, which is what the sum of two opposite numbers gives.
\<close>

definition round_number :: "rat \<Rightarrow> number" where
  "round_number x =
     (if x = 0 then Zero False
      else
        (let a = \<bar>x\<bar>;
             u = pow2 (max (expo a) (- 1022) - 52);
             y = of_int (round_even (a / u)) * u in
         if y = 0 then Zero (x < 0)
         else if overflow_threshold \<le> y then Infinity (x < 0)
         else Finite (if x < 0 then - y else y)))"

text \<open>\<^verbatim>\<open>a + b\<close>\<close>

fun num_add :: "number \<Rightarrow> number \<Rightarrow> number" where
  "num_add NaN _ = NaN"
| "num_add _ NaN = NaN"
| "num_add (Infinity s) (Infinity t) = (if s = t then Infinity s else NaN)"
| "num_add (Infinity s) _ = Infinity s"
| "num_add _ (Infinity t) = Infinity t"
| "num_add (Zero s) (Zero t) = Zero (s \<and> t)"
| "num_add (Zero _) (Finite y) = Finite y"
| "num_add (Finite x) (Zero _) = Finite x"
| "num_add (Finite x) (Finite y) = round_number (x + y)"

text \<open>\<^verbatim>\<open>a * b\<close>\<close>

fun num_mul :: "number \<Rightarrow> number \<Rightarrow> number" where
  "num_mul NaN _ = NaN"
| "num_mul _ NaN = NaN"
| "num_mul (Infinity s) (Infinity t) = Infinity (s \<noteq> t)"
| "num_mul (Infinity _) (Zero _) = NaN"
| "num_mul (Zero _) (Infinity _) = NaN"
| "num_mul (Infinity s) (Finite y) = Infinity (s \<noteq> (y < 0))"
| "num_mul (Finite x) (Infinity t) = Infinity ((x < 0) \<noteq> t)"
| "num_mul (Zero s) (Zero t) = Zero (s \<noteq> t)"
| "num_mul (Zero s) (Finite y) = Zero (s \<noteq> (y < 0))"
| "num_mul (Finite x) (Zero t) = Zero ((x < 0) \<noteq> t)"
| "num_mul (Finite x) (Finite y) = round_number (x * y)"

text \<open>\<^verbatim>\<open>a / b\<close>\<close>

fun num_div :: "number \<Rightarrow> number \<Rightarrow> number" where
  "num_div NaN _ = NaN"
| "num_div _ NaN = NaN"
| "num_div (Infinity _) (Infinity _) = NaN"
| "num_div (Infinity s) (Zero t) = Infinity (s \<noteq> t)"
| "num_div (Infinity s) (Finite y) = Infinity (s \<noteq> (y < 0))"
| "num_div (Zero _) (Zero _) = NaN"
| "num_div (Zero s) (Infinity t) = Zero (s \<noteq> t)"
| "num_div (Zero s) (Finite y) = Zero (s \<noteq> (y < 0))"
| "num_div (Finite x) (Infinity t) = Zero ((x < 0) \<noteq> t)"
| "num_div (Finite x) (Zero t) = Infinity ((x < 0) \<noteq> t)"
| "num_div (Finite x) (Finite y) = round_number (x / y)"

text \<open>\<^verbatim>\<open>Math.max(1, s)\<close>\<close>

fun max_one :: "number \<Rightarrow> number" where
  "max_one NaN = NaN"
| "max_one (Infinity s) = (if s then Finite 1 else Infinity False)"
| "max_one (Zero _) = Finite 1"
| "max_one (Finite x) = (if 1 < x then Finite x else Finite 1)"

subsection \<open>The component\<close>

record Day =
  day :: number
  encrypted :: number
  pending :: number
  failed :: number

datatype js_error = TypeError

text \<open>
  \<^verbatim>\<open>const d = days[i]\<close> followed by a read of a field of \<open>d\<close>: out of range the
  element is undefined and the field read throws a TypeError.
\<close>

definition day_at :: "Day list \<Rightarrow> nat \<Rightarrow> js_error + Day" where
  "day_at days i = (if i < length days then Inr (days ! i) else Inl TypeError)"

text \<open>\<^verbatim>\<open>Math.max(1, d.encrypted + d.pending + d.failed)\<close>\<close>

definition total_of :: "Day list \<Rightarrow> nat \<Rightarrow> js_error + number" where
  "total_of days i =
     (case day_at days i of
        Inl e \<Rightarrow> Inl e
      | Inr d \<Rightarrow> Inr (max_one (num_add (num_add (encrypted d) (pending d)) (failed d))))"

record seg =
  seg_label :: jsstring
  seg_val :: number
  seg_frac :: number
  seg_color :: jsstring

text \<open>\<^verbatim>\<open>const f = (n: number) => n / total\<close>, with \<open>tot\<close> for the memoised \<open>total\<close>\<close>

definition f :: "number \<Rightarrow> number \<Rightarrow> number" where
  "f tot n = num_div n tot"

definition segs :: "Day list \<Rightarrow> nat \<Rightarrow> number \<Rightarrow> js_error + seg list" where
  "segs days i tot =
     (case day_at days i of
        Inl e \<Rightarrow> Inl e
      | Inr d \<Rightarrow>
          Inr [\<lparr>seg_label = str ''Encrypted'', seg_val = encrypted d,
                 seg_frac = f tot (encrypted d), seg_color = str ''#16c2c2''\<rparr>,
               \<lparr>seg_label = str ''Pending'', seg_val = pending d,
                 seg_frac = f tot (pending d), seg_color = str ''#94a3b8''\<rparr>,
               \<lparr>seg_label = str ''Failed'', seg_val = failed d,
                 seg_frac = f tot (failed d), seg_color = str ''#fbbf24''\<rparr>])"

text \<open>
  The pending timeout that \<^verbatim>\<open>tRef.current\<close> denotes: its delay in milliseconds and
  the value of the variable \<open>step\<close> that its callback \<open>tick\<close> closes over.
\<close>

record timeout =
  delay :: nat
  step :: nat

record pie =
  idx :: nat
  playing :: bool
  tRef :: "timeout option"

text \<open>\<open>idx\<close> is the state \<open>i\<close> of the source, the current day index.\<close>

definition pie_init :: pie where
  "pie_init = \<lparr>idx = 0, playing = False, tRef = None\<rparr>"

text \<open>
  What a render computes from \<open>days\<close> and the state: the legend's total, the three
  segments, the day of the centre label and the percentage under it (before
  \<^verbatim>\<open>toFixed\<close>), and whether the button is disabled. A render that throws is \<open>Inl\<close>.
\<close>

record pie_view =
  v_total :: number
  v_segs :: "seg list"
  v_day :: number
  v_percent :: number
  v_disabled :: bool

definition render :: "Day list \<Rightarrow> pie \<Rightarrow> js_error + pie_view" where
  "render days st =
     (case total_of days (idx st) of
        Inl e \<Rightarrow> Inl e
      | Inr tot \<Rightarrow>
          (case segs days (idx st) tot of
             Inl e \<Rightarrow> Inl e
           | Inr sg \<Rightarrow>
               (case day_at days (idx st) of
                  Inl e \<Rightarrow> Inl e
                | Inr d \<Rightarrow>
                    Inr \<lparr>v_total = tot, v_segs = sg, v_day = day d,
                         v_percent = num_mul (num_div (encrypted d) tot) (Finite 100),
                         v_disabled = playing st\<rparr>)))"

definition start :: "Day list \<Rightarrow> pie \<Rightarrow> pie" where
  "start days st =
     (if playing st then st
      else st\<lparr>playing := True, idx := 0, tRef := Some \<lparr>delay = 1200, step = 0\<rparr>\<rparr>)"

text \<open>The pending timeout fires: one call of \<open>tick\<close>.\<close>

definition tick :: "Day list \<Rightarrow> pie \<Rightarrow> pie" where
  "tick days st =
     (case tRef st of
        None \<Rightarrow> st
      | Some t \<Rightarrow>
          (let step' = step t + 1 in
           if step' \<ge> length days then st\<lparr>playing := False, tRef := None\<rparr>
           else st\<lparr>idx := step', tRef := Some \<lparr>delay = 1200, step = step'\<rparr>\<rparr>))"

text \<open>The cleanup of the effect: the pending timeout is cleared.\<close>

definition teardown :: "pie \<Rightarrow> pie" where
  "teardown st = st\<lparr>tRef := None\<rparr>"

text \<open>The measure of a playback: the timeouts still to fire, at most.\<close>

definition ticks_left :: "Day list \<Rightarrow> pie \<Rightarrow> nat" where
  "ticks_left days st = (case tRef st of None \<Rightarrow> 0 | Some t \<Rightarrow> Suc (length days - step t))"

text \<open>A whole playback: the timeouts fire one after the other until none is pending.\<close>

function play :: "Day list \<Rightarrow> pie \<Rightarrow> pie" where
  "play days st = (if tRef st = None then st else play days (tick days st))"
  by pat_completeness auto
termination
  by (relation "measure (\<lambda>(days, st). ticks_left days st)")
     (auto simp: ticks_left_def tick_def Let_def split: option.splits)

declare play.simps [simp del]

datatype pie_event = Start | Tick | Teardown

fun pie_step :: "Day list \<Rightarrow> pie \<Rightarrow> pie_event \<Rightarrow> pie" where
  "pie_step days st Start = start days st"
| "pie_step days st Tick = tick days st"
| "pie_step days st Teardown = teardown st"

definition pie_run :: "Day list \<Rightarrow> pie \<Rightarrow> pie_event list \<Rightarrow> pie" where
  "pie_run days st evs = foldl (pie_step days) st evs"

section \<open>CloudLabPanel\<close>

text \<open>\<open>at_time\<close> is the field \<open>at\<close> of the source.\<close>

record CallResult =
  url :: jsstring
  ok :: bool
  status :: nat
  statusText :: jsstring
  bodyPreview :: jsstring
  fullJson :: "json option"
  timeMs :: int
  at_time :: jsstring

text \<open>\<^verbatim>\<open>s.replace(/\s+/g, " ")\<close>: every maximal run of white space becomes one space.\<close>

function collapse_ws :: "jsstring \<Rightarrow> jsstring" where
  "collapse_ws [] = []"
| "collapse_ws (c # cs) =
     (if is_ws c then 0x0020 # collapse_ws (dropWhile is_ws cs) else c # collapse_ws cs)"
  by pat_completeness auto
termination
  by (relation "measure length") (auto simp: length_dropWhile_le less_Suc_eq_le)

definition trimPreview :: "jsstring \<Rightarrow> nat \<Rightarrow> jsstring" where
  "trimPreview s mx =
     (let t = trim (collapse_ws s) in
      if length t > mx then take mx t @ [0x0020, 0x2026]
      else if t \<noteq> [] then t else str ''(empty)'')"

text \<open>
  \<^verbatim>\<open>JSON.stringify(undefined, null, 2)\<close> is undefined, on which \<open>trimPreview\<close>
  throws a TypeError.
\<close>

definition previewJson :: "runtime \<Rightarrow> json option \<Rightarrow> nat \<Rightarrow> js_error + jsstring" where
  "previewJson rt v mx =
     (case v of None \<Rightarrow> Inl TypeError | Some j \<Rightarrow> Inr (trimPreview (JSON_stringify2 rt j) mx))"

text \<open>The handler of the outer \<^verbatim>\<open>try\<close> of \<open>call\<close>, with \<^verbatim>\<open>e?.message ?? "Network error"\<close>.\<close>

definition call_failed :: "jsstring \<Rightarrow> thrown \<Rightarrow> int \<Rightarrow> jsstring \<Rightarrow> CallResult" where
  "call_failed fullUrl e ms now =
     \<lparr>url = fullUrl, ok = False, status = 0,
      statusText = (case message e of None \<Rightarrow> str ''Network error'' | Some m \<Rightarrow> m),
      bodyPreview = str ''(request failed)'', fullJson = None, timeMs = ms, at_time = now\<rparr>"

text \<open>
  \<open>call\<close>, given what \<^verbatim>\<open>fetch\<close> delivers, the two clock readings and the rendering of
  the date. The inner handler runs when the parser throws and when the body is empty
  (\<open>fullJson\<close> undefined, on which \<open>previewJson\<close> throws).
\<close>

definition call :: "runtime \<Rightarrow> jsstring \<Rightarrow> fetch_result \<Rightarrow> real \<Rightarrow> real \<Rightarrow> jsstring \<Rightarrow> CallResult" where
  "call rt fullUrl r t0 t1 now =
     (let ms = round (t1 - t0) in
      case r of
        Rejected e \<Rightarrow> call_failed fullUrl e ms now
      | Resolved st stx body \<Rightarrow>
          (case body of
             Inl e \<Rightarrow> call_failed fullUrl e ms now
           | Inr raw \<Rightarrow>
               (let parsed = (if raw \<noteq> [] then JSON_parse rt raw else None) in
                \<lparr>url = fullUrl, ok = r_ok st, status = st, statusText = stx,
                 bodyPreview =
                   (case previewJson rt parsed 260 of
                      Inr p \<Rightarrow> p
                    | Inl _ \<Rightarrow> trimPreview raw 260),
                 fullJson = parsed, timeMs = ms, at_time = now\<rparr>)))"

record panel =
  error :: "jsstring option"
  history :: "CallResult list"

definition panel_init :: panel where
  "panel_init = \<lparr>error = None, history = []\<rparr>"

text \<open>
  \<open>run\<close> is suspended between its state updates, so it is three steps, each at a moment
  of its own. The packet animation, in which it waits, is not modelled.

  The first step, at the click: \<^verbatim>\<open>setError(null)\<close>.
\<close>

definition run_begin :: "panel \<Rightarrow> panel" where
  "run_begin st = st\<lparr>error := None\<rparr>"

text \<open>
  The second step, once the forward sweep has ended and \<open>call\<close> has returned \<open>res\<close>:
  \<^verbatim>\<open>setHistory((h) => [...h, res])\<close>.
\<close>

definition run_returned :: "CallResult \<Rightarrow> panel \<Rightarrow> panel" where
  "run_returned res st = st\<lparr>history := history st @ [res]\<rparr>"

definition failure_text :: "CallResult \<Rightarrow> jsstring" where
  "failure_text res =
     str ''Request failed ('' @ decimal (status res) @ str '' '' @ statusText res @ str '')''"

text \<open>
  The third step, once the pause and the backward sweep have ended:
  \<^verbatim>\<open>if (!res.ok) setError(...)\<close>.
\<close>

definition run_end :: "CallResult \<Rightarrow> panel \<Rightarrow> panel" where
  "run_end res st = (if \<not> ok res then st\<lparr>error := Some (failure_text res)\<rparr> else st)"

text \<open>
  A whole \<open>run\<close> with no step of another run in between; \<open>base\<close> is the \<open>root\<close> of the
  source, the base address without trailing slashes.
\<close>

definition run ::
    "runtime \<Rightarrow> jsstring \<Rightarrow> jsstring \<Rightarrow> fetch_result \<Rightarrow> real \<Rightarrow> real \<Rightarrow> jsstring \<Rightarrow> panel \<Rightarrow> panel" where
  "run rt base path r t0 t1 now st =
     (let res = call rt (base @ path) r t0 t1 now in
      run_end res (run_returned res (run_begin st)))"

text \<open>
  The panel over time. Nothing keeps a second click from starting a run while a first one
  is suspended, so the steps of several runs interleave, each run keeping the order of
  its own three. An event is one step of some run: \<open>Clicked\<close> its first, \<open>Returned res\<close>
  its second, \<open>Ended res\<close> its third, with \<open>res\<close> the result that run holds.
\<close>

datatype panel_event = Clicked | Returned CallResult | Ended CallResult

fun panel_step :: "panel \<Rightarrow> panel_event \<Rightarrow> panel" where
  "panel_step st Clicked = run_begin st"
| "panel_step st (Returned res) = run_returned res st"
| "panel_step st (Ended res) = run_end res st"

definition panel_run :: "panel \<Rightarrow> panel_event list \<Rightarrow> panel" where
  "panel_run st evs = foldl panel_step st evs"

section \<open>Definitions in the words of the specification\<close>

text \<open>
  The first of the probed values that is present, which is to say neither undefined
  nor null, and \<open>d\<close> when none is.
\<close>

fun first_present :: "jsvalue list \<Rightarrow> json \<Rightarrow> json" where
  "first_present [] d = d"
| "first_present (None # vs) d = first_present vs d"
| "first_present (Some JNull # vs) d = first_present vs d"
| "first_present (Some v # vs) d = v"

text \<open>
  A message reduced to its role and content, and the value whose serialisation the
  request body is to be: the object \<^verbatim>\<open>{ messages: L }\<close>, with \<open>L\<close> the prior
  transcript followed by the new user message, each reduced.
\<close>

definition reduced :: "Msg \<Rightarrow> json" where
  "reduced m = JObject [(str ''role'', JString (role_str (role m))), (str ''content'', content m)]"

definition spec_request_json :: "Msg list \<Rightarrow> jsstring \<Rightarrow> json" where
  "spec_request_json prior t =
     JObject [(str ''messages'', JArray (map reduced (prior @ [\<lparr>role = User, content = JString t\<rparr>])))]"

text \<open>
  A count, as the specification has the three fields of a snapshot: a natural number,
  as the number that holds it. And the rational a number denotes, when it is a zero or
  finite.
\<close>

definition count :: "nat \<Rightarrow> number" where
  "count n = (if n = 0 then Zero False else Finite (of_nat n))"

fun value_of :: "number \<Rightarrow> rat option" where
  "value_of NaN = None"
| "value_of (Infinity _) = None"
| "value_of (Zero _) = Some 0"
| "value_of (Finite x) = Some x"

text \<open>
  The index is in range, and so is the step of a pending timeout: what every operation
  of the pie keeps.
\<close>

definition pie_inv :: "Day list \<Rightarrow> pie \<Rightarrow> bool" where
  "pie_inv days st \<longleftrightarrow>
     idx st < length days \<and> (case tRef st of None \<Rightarrow> True | Some t \<Rightarrow> step t < length days)"

text \<open>
  No failing run ends: among the events, every third step of a run holds a result whose
  \<open>ok\<close> is true.
\<close>

definition quiet :: "panel_event list \<Rightarrow> bool" where
  "quiet evs = list_all (\<lambda>ev. case ev of Ended res \<Rightarrow> ok res | _ \<Rightarrow> True) evs"

section \<open>A runtime for the concrete cases\<close>

text \<open>
  A parser that knows the three bodies of the specification's examples and rejects
  every other text, serialisers that return the empty text (no concrete case reads
  what they return), and a URL constructor that throws on every address, so that the
  origin shown is the address itself.
\<close>

definition demo_parse :: "jsstring \<Rightarrow> json option" where
  "demo_parse =
     map_of
       [(str ''{\"reply\":\"A\",\"content\":\"B\"}'',
         JObject [(str ''reply'', JString (str ''A'')), (str ''content'', JString (str ''B''))]),
        (str ''{\"content\":\"B\",\"message\":\"C\"}'',
         JObject [(str ''content'', JString (str ''B'')), (str ''message'', JString (str ''C''))]),
        (str ''{\"choices\":[{\"message\":{\"content\":\"D\"}}]}'',
         JObject [(str ''choices'',
           JArray [JObject [(str ''message'', JObject [(str ''content'', JString (str ''D''))])]])])]"

definition demo_rt :: runtime where
  "demo_rt = \<lparr>JSON_parse = demo_parse, JSON_stringify = (\<lambda>j. []),
              JSON_stringify2 = (\<lambda>j. []), URL_origin = Map.empty\<rparr>"

text \<open>
  A parser that knows three bodies whose reply field is null, the empty string and a
  number, and rejects every other text.
\<close>

definition null_reply_parse :: "jsstring \<Rightarrow> json option" where
  "null_reply_parse =
     map_of
       [(str ''{\"reply\":null,\"content\":\"B\"}'',
         JObject [(str ''reply'', JNull), (str ''content'', JString (str ''B''))]),
        (str ''{\"reply\":\"\",\"content\":\"B\"}'',
         JObject [(str ''reply'', JString []), (str ''content'', JString (str ''B''))]),
        (str ''{\"reply\":7,\"content\":\"B\"}'',
         JObject [(str ''reply'', JNumber 7), (str ''content'', JString (str ''B''))])]"

definition null_reply_rt :: runtime where
  "null_reply_rt = \<lparr>JSON_parse = null_reply_parse, JSON_stringify = (\<lambda>j. []),
              JSON_stringify2 = (\<lambda>j. []), URL_origin = Map.empty\<rparr>"

text \<open>
  Three states of the terminal: one with a first exchange behind it and a question
  typed, one with a request in flight, one with only white space typed.
\<close>

definition demo_url :: jsstring where
  "demo_url = str ''https://api.example/chat''"

definition typed_world :: chat_world where
  "typed_world =
     \<lparr>ui = \<lparr>messages = [\<lparr>role = User, content = JString (str ''hi'')\<rparr>,
                          \<lparr>role = Assistant, content = JString (str ''hello'')\<rparr>],
            input = str '' status? '', busy = False, err = None\<rparr>,
      inflight = None, sent = []\<rparr>"

definition busy_world :: chat_world where
  "busy_world =
     \<lparr>ui = \<lparr>messages = [\<lparr>role = User, content = JString (str ''hi'')\<rparr>],
            input = str ''again'', busy = True, err = None\<rparr>,
      inflight = Some 0, sent = []\<rparr>"

definition blank_world :: chat_world where
  "blank_world =
     \<lparr>ui = \<lparr>messages = [], input = [0x0020, 0x0009, 0x000A, 0x00A0], busy = False, err = None\<rparr>,
      inflight = None, sent = []\<rparr>"

text \<open>
  Four daily snapshots, as the pie is meant to play them (Day 1 to Day 4), and an array
  of one snapshot with no machine counted.
\<close>

definition demo_days :: "Day list" where
  "demo_days =
     [\<lparr>day = Finite 1, encrypted = Finite 12, pending = Finite 30, failed = Finite 3\<rparr>,
      \<lparr>day = Finite 2, encrypted = Finite 25, pending = Finite 18, failed = Finite 2\<rparr>,
      \<lparr>day = Finite 3, encrypted = Finite 38, pending = Finite 6, failed = Finite 1\<rparr>,
      \<lparr>day = Finite 4, encrypted = Finite 44, pending = Finite 1, failed = Zero False\<rparr>]"

definition zero_days :: "Day list" where
  "zero_days = [\<lparr>day = Finite 1, encrypted = Zero False, pending = Zero False, failed = Zero False\<rparr>]"

text \<open>An array of one snapshot with one machine encrypted, four pending and one failed.\<close>

definition sixth_days :: "Day list" where
  "sixth_days = [\<lparr>day = Finite 1, encrypted = Finite 1, pending = Finite 4, failed = Finite 1\<rparr>]"

text \<open>The address of the health check and the rendering of a date, for the panel.\<close>

definition health_url :: jsstring where
  "health_url = str ''https://lab.example/api/health''"

definition demo_now :: jsstring where
  "demo_now = str ''1/1/2025, 12:00:00 PM''"

section \<open>Reply extraction\<close>

lemma coalesce_cases:
  "coalesce a b = (case a of None \<Rightarrow> b | Some JNull \<Rightarrow> b | Some v \<Rightarrow> Some v)"
  by (simp add: coalesce_def nullish_def split: option.splits json.splits)

lemma probe_first_present:
  "(case probe j raw of Some v \<Rightarrow> v | None \<Rightarrow> JString raw) =
   first_present [field j (str ''reply''), field j (str ''content''), field j (str ''message''),
                  nested_choice j] (JString raw)"
  unfolding probe_def coalesce_cases
  by (simp split: option.splits json.splits)

lemma field_JNull: "field JNull k = None"
  by (simp add: field_def)

lemma nested_choice_JNull: "nested_choice JNull = None"
  by (simp add: nested_choice_def field_def opt_chain_def)

lemma catch_reply_nonempty: "raw \<noteq> [] \<Longrightarrow> catch_reply raw = JString raw"
  by (simp add: catch_reply_def)

lemma resolve_reply_eq:
  "resolve_reply rt raw =
     (case (if raw \<noteq> [] then JSON_parse rt raw else Some (JObject [])) of
        None \<Rightarrow> JString raw
      | Some j \<Rightarrow>
          first_present [field j (str ''reply''), field j (str ''content''),
                         field j (str ''message''), nested_choice j] (JString raw))"
proof (cases "raw = []")
  case True
  then show ?thesis
    by (simp add: resolve_reply_def probe_first_present)
next
  case False
  show ?thesis
  proof (cases "JSON_parse rt raw")
    case None
    with False show ?thesis by (simp add: resolve_reply_def catch_reply_nonempty)
  next
    case (Some j)
    show ?thesis
    proof (cases "j = JNull")
      case True
      with False Some show ?thesis
        by (simp add: resolve_reply_def catch_reply_nonempty field_JNull nested_choice_JNull)
    next
      case False
      with \<open>raw \<noteq> []\<close> Some show ?thesis
        by (cases j) (simp_all add: resolve_reply_def probe_first_present)
    qed
  qed
qed

lemma resolve_reply_parsed:
  "raw \<noteq> [] \<Longrightarrow> JSON_parse rt raw = Some j \<Longrightarrow>
   resolve_reply rt raw =
     first_present [field j (str ''reply''), field j (str ''content''),
                    field j (str ''message''), nested_choice j] (JString raw)"
  by (simp add: resolve_reply_eq)

lemma resolve_reply_empty: "resolve_reply rt [] = JString []"
  by (simp add: resolve_reply_eq field_def nested_choice_def opt_chain_def)

section \<open>The two halves of send\<close>

lemma send_begin_accepted:
  "trim (input st) \<noteq> [] \<Longrightarrow> \<not> busy st \<Longrightarrow>
   send_begin rt apiUrl st =
     (st\<lparr>err := None, busy := True,
         messages := messages st @ [\<lparr>role = User, content = JString (trim (input st))\<rparr>],
         input := []\<rparr>,
      Some \<lparr>req_url = apiUrl, req_method = str ''POST'',
            req_headers = [(str ''Content-Type'', str ''application/json'')],
            req_body = request_body rt (messages st) (trim (input st))\<rparr>)"
  by (simp add: send_begin_def Let_def)

lemma send_begin_rejected:
  "trim (input st) = [] \<or> busy st \<Longrightarrow> send_begin rt apiUrl st = (st, None)"
  by (auto simp add: send_begin_def Let_def)

lemma submit_rejected:
  "trim (input (ui w)) = [] \<or> busy (ui w) \<Longrightarrow> chat_step rt apiUrl w (Submit t0) = w"
  by (simp add: send_begin_rejected)

lemma submit_accepted:
  "trim (input (ui w)) \<noteq> [] \<Longrightarrow> \<not> busy (ui w) \<Longrightarrow>
   chat_step rt apiUrl w (Submit t0) =
     w\<lparr>ui := (ui w)\<lparr>err := None, busy := True,
           messages := messages (ui w) @ [\<lparr>role = User, content = JString (trim (input (ui w)))\<rparr>],
           input := []\<rparr>,
       inflight := Some t0,
       sent := sent w @ [\<lparr>req_url = apiUrl, req_method = str ''POST'',
            req_headers = [(str ''Content-Type'', str ''application/json'')],
            req_body = request_body rt (messages (ui w)) (trim (input (ui w)))\<rparr>]\<rparr>"
  by (simp add: send_begin_accepted)

lemma send_finish_ok:
  "awaited_text r = Inr raw \<Longrightarrow>
   send_finish rt apiUrl t0 r t1 st =
     st\<lparr>messages := messages st
           @ [\<lparr>role = Assistant, content = assistant_content (resolve_reply rt raw)\<rparr>,
              \<lparr>role = System,
               content = JString (status_line (elapsed_ms t0 t1) (origin rt apiUrl))\<rparr>],
        busy := False\<rparr>"
  by (simp add: send_finish_def)

lemma send_finish_failed:
  "awaited_text r = Inl e \<Longrightarrow>
   send_finish rt apiUrl t0 r t1 st =
     st\<lparr>err := Some (err_text e),
        messages := messages st @ [\<lparr>role = System, content = JString failure_line\<rparr>],
        busy := False\<rparr>"
  by (simp add: send_finish_def)

lemma send_finish_not_busy: "\<not> busy (send_finish rt apiUrl t0 r t1 st)"
  by (cases "awaited_text r") (simp_all add: send_finish_def)

lemma err_text_nonempty: "err_text e \<noteq> []"
  by (simp add: err_text_def str_def split: option.splits)

lemma request_body_spec:
  "request_body rt prior t = JSON_stringify rt (spec_request_json prior t)"
proof -
  have "msg_json = reduced"
    by (rule ext) (simp add: msg_json_def reduced_def)
  then show ?thesis
    by (simp add: request_body_def spec_request_json_def reduced_def)
qed

lemma chat_run_two: "chat_run rt apiUrl w [e1, e2] = chat_step rt apiUrl (chat_step rt apiUrl w e1) e2"
  by (simp add: chat_run_def)

section \<open>The concrete states\<close>

lemma trim_typed: "trim (input (ui typed_world)) = str ''status?''"
  by (simp add: typed_world_def trim_def is_ws_def str_def)

lemma trim_blank: "trim (input (ui blank_world)) = []"
  by (simp add: blank_world_def trim_def is_ws_def)

lemma plain_reply: "resolve_reply demo_rt (str ''plain'') = JString (str ''plain'')"
  by (simp add: resolve_reply_eq demo_rt_def demo_parse_def str_def)

lemma elapsed_twelve: "elapsed_ms 0 12 = 12"
  by (simp add: elapsed_ms_def)

section \<open>Sequences only grow\<close>

lemma send_begin_prefix: "prefix (messages st) (messages (fst (send_begin rt apiUrl st)))"
  by (simp add: send_begin_def Let_def)

lemma send_finish_prefix: "prefix (messages st) (messages (send_finish rt apiUrl t0 r t1 st))"
  by (cases "awaited_text r") (simp_all add: send_finish_def)

lemma chat_step_prefix: "prefix (messages (ui w)) (messages (ui (chat_step rt apiUrl w ev)))"
proof (cases ev)
  case (Typed s)
  then show ?thesis by simp
next
  case (Submit t0)
  with send_begin_prefix [of "ui w" rt apiUrl] show ?thesis
    by (cases "send_begin rt apiUrl (ui w)") (auto split: option.splits)
next
  case (Settled r t1)
  then show ?thesis
    by (simp add: send_finish_prefix split: option.splits)
qed

lemma chat_run_prefix: "prefix (messages (ui w)) (messages (ui (chat_run rt apiUrl w evs)))"
proof (induction evs arbitrary: w)
  case Nil
  then show ?case by (simp add: chat_run_def)
next
  case (Cons ev evs)
  have "prefix (messages (ui w)) (messages (ui (chat_step rt apiUrl w ev)))"
    by (rule chat_step_prefix)
  also have "prefix \<dots> (messages (ui (chat_run rt apiUrl (chat_step rt apiUrl w ev) evs)))"
    by (rule Cons.IH)
  finally show ?case by (simp add: chat_run_def)
qed

lemma chat_run_append:
  "chat_run rt apiUrl w (evs @ evs') = chat_run rt apiUrl (chat_run rt apiUrl w evs) evs'"
  by (simp add: chat_run_def)

lemma panel_step_prefix: "prefix (history p) (history (panel_step p ev))"
  by (cases ev) (simp_all add: run_begin_def run_returned_def run_end_def)

lemma panel_run_prefix: "prefix (history p) (history (panel_run p evs))"
proof (induction evs arbitrary: p)
  case Nil
  then show ?case by (simp add: panel_run_def)
next
  case (Cons ev evs)
  have "prefix (history p) (history (panel_step p ev))"
    by (rule panel_step_prefix)
  also have "prefix \<dots> (history (panel_run (panel_step p ev) evs))"
    by (rule Cons.IH)
  finally show ?case by (simp add: panel_run_def)
qed

lemma panel_run_append: "panel_run p (evs @ evs') = panel_run (panel_run p evs) evs'"
  by (simp add: panel_run_def)

section \<open>Playback of the pie\<close>

lemma start_playing: "playing st \<Longrightarrow> start days st = st"
  by (simp add: start_def)

lemma start_idle:
  "\<not> playing st \<Longrightarrow>
   start days st = st\<lparr>playing := True, idx := 0, tRef := Some \<lparr>delay = 1200, step = 0\<rparr>\<rparr>"
  by (simp add: start_def)

lemma tick_advance:
  "tRef st = Some t \<Longrightarrow> step t + 1 < length days \<Longrightarrow>
   tick days st = st\<lparr>idx := step t + 1, tRef := Some \<lparr>delay = 1200, step = step t + 1\<rparr>\<rparr>"
  by (simp add: tick_def Let_def)

lemma tick_stop:
  "tRef st = Some t \<Longrightarrow> length days \<le> step t + 1 \<Longrightarrow>
   tick days st = st\<lparr>playing := False, tRef := None\<rparr>"
  by (simp add: tick_def Let_def)

lemma ticks_advance:
  "\<not> playing st \<Longrightarrow> k < length days \<Longrightarrow>
   (tick days ^^ k) (start days st) =
     st\<lparr>playing := True, idx := k, tRef := Some \<lparr>delay = 1200, step = k\<rparr>\<rparr>"
proof (induction k)
  case 0
  then show ?case by (simp add: start_idle)
next
  case (Suc k)
  then have "(tick days ^^ k) (start days st) =
     st\<lparr>playing := True, idx := k, tRef := Some \<lparr>delay = 1200, step = k\<rparr>\<rparr>"
    by simp
  with Suc.prems show ?case
    by (simp add: tick_advance)
qed

lemma ticks_stop:
  assumes idle: "\<not> playing st"
  shows "(tick days ^^ (max 1 (length days))) (start days st) =
     st\<lparr>playing := False, idx := length days - 1, tRef := None\<rparr>"
proof (cases "length days")
  case 0
  with idle show ?thesis
    by (simp add: start_def tick_def)
next
  case (Suc n)
  then have m: "max 1 (length days) = Suc n" by simp
  from idle Suc have "(tick days ^^ n) (start days st) =
     st\<lparr>playing := True, idx := n, tRef := Some \<lparr>delay = 1200, step = n\<rparr>\<rparr>"
    by (simp add: ticks_advance)
  with Suc show ?thesis
    unfolding m by (simp add: tick_stop)
qed

lemma play_unfold: "play days st = (if tRef st = None then st else play days (tick days st))"
  by (rule play.simps)

lemma play_idle: "tRef st = None \<Longrightarrow> play days st = st"
  by (subst play_unfold) simp

lemma play_from:
  "tRef st = Some \<lparr>delay = d, step = k\<rparr> \<Longrightarrow> idx st = k \<Longrightarrow> k < length days \<or> days = [] \<Longrightarrow>
   play days st = st\<lparr>playing := False, idx := (if days = [] then k else length days - 1), tRef := None\<rparr>"
proof (induction "length days - k" arbitrary: st k d)
  case 0
  then have stop: "length days \<le> k + 1" by auto
  from 0 have "tick days st = st\<lparr>playing := False, tRef := None\<rparr>"
    using tick_stop [of st "\<lparr>delay = d, step = k\<rparr>" days] stop by simp
  moreover from 0 have "days = []" by auto
  ultimately show ?case using 0
    by (subst play_unfold) (simp add: play_idle)
next
  case (Suc n)
  then have nonempty: "days \<noteq> []" and lt: "k < length days" by auto
  show ?case
  proof (cases "k + 1 < length days")
    case True
    then have t: "tick days st = st\<lparr>idx := k + 1, tRef := Some \<lparr>delay = 1200, step = k + 1\<rparr>\<rparr>"
      using tick_advance [of st "\<lparr>delay = d, step = k\<rparr>" days] Suc.prems by simp
    have "play days (tick days st) =
        (tick days st)\<lparr>playing := False, idx := (if days = [] then k + 1 else length days - 1), tRef := None\<rparr>"
    proof (rule Suc.hyps(1))
      show "n = length days - (k + 1)" using Suc.hyps(2) by simp
      show "tRef (tick days st) = Some \<lparr>delay = 1200, step = k + 1\<rparr>" by (simp add: t)
      show "idx (tick days st) = k + 1" by (simp add: t)
      show "k + 1 < length days \<or> days = []" using True by simp
    qed
    with Suc.prems nonempty show ?thesis
      by (subst play_unfold) (simp add: t)
  next
    case False
    then have stop: "length days \<le> k + 1" by simp
    then have "tick days st = st\<lparr>playing := False, tRef := None\<rparr>"
      using tick_stop [of st "\<lparr>delay = d, step = k\<rparr>" days] Suc.prems by simp
    moreover from stop lt have "length days - 1 = k" by simp
    ultimately show ?thesis using Suc.prems nonempty
      by (subst play_unfold) (simp add: play_idle)
  qed
qed

lemma play_start:
  "\<not> playing st \<Longrightarrow>
   play days (start days st) = st\<lparr>playing := False, idx := length days - 1, tRef := None\<rparr>"
  using play_from [of "start days st" 1200 0 days]
  by (cases "days = []") (simp_all add: start_idle)

lemma demo_length: "length demo_days = 4"
  by (simp add: demo_days_def)

lemma demo_start:
  "start demo_days pie_init = \<lparr>idx = 0, playing = True, tRef = Some \<lparr>delay = 1200, step = 0\<rparr>\<rparr>"
  by (simp add: start_def pie_init_def)

lemma demo_tick:
  "tick demo_days \<lparr>idx = k, playing = True, tRef = Some \<lparr>delay = 1200, step = k\<rparr>\<rparr> =
     (if 4 \<le> k + 1 then \<lparr>idx = k, playing = False, tRef = None\<rparr>
      else \<lparr>idx = k + 1, playing = True, tRef = Some \<lparr>delay = 1200, step = k + 1\<rparr>\<rparr>)"
  by (simp add: tick_def demo_length Let_def)

section \<open>Rounding\<close>

lemma pow2_powi: "pow2 k = 2 powi k"
  by (simp add: pow2_def power_int_def power_one_over)

lemma pow2_pos: "0 < pow2 k"
  by (simp add: pow2_powi zero_less_power_int)

lemma pow2_mono: "j \<le> k \<Longrightarrow> pow2 j \<le> pow2 k"
  by (simp add: pow2_powi power_int_increasing)

lemma pow2_nat: "pow2 (int n) = 2 ^ n"
  by (simp add: pow2_def)

lemma pow2_neg_nat: "pow2 (- int n) = 1 / 2 ^ n"
proof (cases "n = 0")
  case True
  then show ?thesis by (simp add: pow2_def)
next
  case False
  then have "\<not> 0 \<le> - int n" by simp
  then show ?thesis unfolding pow2_def by simp
qed

lemma expo_lower:
  assumes pos: "0 < x"
  shows "pow2 (expo x) \<le> x"
proof (cases "1 \<le> x")
  case True
  then have n: "0 < \<lfloor>x\<rfloor>" by simp
  from bitlen_bounds [OF n] have b: "2 ^ nat (bitlen \<lfloor>x\<rfloor> - 1) \<le> \<lfloor>x\<rfloor>" by simp
  have "0 < bitlen \<lfloor>x\<rfloor>"
  proof (rule ccontr)
    assume "\<not> 0 < bitlen \<lfloor>x\<rfloor>"
    then have "nat (bitlen \<lfloor>x\<rfloor>) = 0" by simp
    with bitlen_bounds [OF n] have "\<lfloor>x\<rfloor> < 1" by simp
    with n show False by simp
  qed
  then have "pow2 (bitlen \<lfloor>x\<rfloor> - 1) = 2 ^ nat (bitlen \<lfloor>x\<rfloor> - 1)"
    by (simp add: pow2_def)
  also have "\<dots> = rat_of_int (2 ^ nat (bitlen \<lfloor>x\<rfloor> - 1))" by simp
  also from b have "\<dots> \<le> rat_of_int \<lfloor>x\<rfloor>"
    by (simp only: of_int_le_iff)
  also have "\<dots> \<le> x" by simp
  finally show ?thesis using True by (simp add: expo_def)
next
  case False
  with pos have inv: "1 < 1 / x" by simp
  then have "1 < \<lceil>1 / x\<rceil>"
    by (simp add: less_ceiling_iff)
  then have n: "0 < \<lceil>1 / x\<rceil> - 1" by simp
  let ?b = "bitlen (\<lceil>1 / x\<rceil> - 1)"
  from bitlen_bounds [OF n] have "\<lceil>1 / x\<rceil> - 1 < 2 ^ nat ?b" by simp
  then have "\<lceil>1 / x\<rceil> \<le> 2 ^ nat ?b" by simp
  then have "rat_of_int \<lceil>1 / x\<rceil> \<le> rat_of_int (2 ^ nat ?b)"
    by (simp only: of_int_le_iff)
  then have "rat_of_int \<lceil>1 / x\<rceil> \<le> 2 ^ nat ?b"
    by simp
  with le_of_int_ceiling [of "1 / x"] have "1 / x \<le> 2 ^ nat ?b"
    by (rule order_trans)
  with pos have "1 / 2 ^ nat ?b \<le> x"
    by (simp add: field_simps)
  moreover have "0 \<le> ?b" by (rule bitlen_nonneg)
  then have "pow2 (- ?b) = 1 / 2 ^ nat ?b"
    using pow2_neg_nat [of "nat ?b"] by simp
  ultimately show ?thesis using False by (simp add: expo_def)
qed

lemma round_even_error: "\<bar>rat_of_int (round_even z) - z\<bar> \<le> 1 / 2"
proof -
  have "rat_of_int \<lfloor>z\<rfloor> \<le> z" "z < rat_of_int \<lfloor>z\<rfloor> + 1"
    by linarith+
  then show ?thesis
    by (auto simp add: round_even_def Let_def abs_le_iff)
qed

lemma round_even_of_int: "round_even (rat_of_int n) = n"
  by (simp add: round_even_def)

lemma expo_less:
  assumes "0 < x" and "x < pow2 k"
  shows "expo x < k"
proof (rule ccontr)
  assume "\<not> expo x < k"
  then have "pow2 k \<le> pow2 (expo x)" by (simp add: pow2_mono)
  also have "\<dots> \<le> x" using assms(1) by (rule expo_lower)
  finally show False using assms(2) by simp
qed

lemma round_number_count:
  assumes pos: "0 < n" and small: "n < 2 ^ 53"
  shows "round_number (of_nat n) = Finite (of_nat n)"
proof -
  let ?x = "rat_of_nat n"
  from pos have x: "0 < ?x" by simp
  from small have "?x < 2 ^ 53"
    by (metis of_nat_less_iff of_nat_numeral of_nat_power)
  then have lt: "?x < pow2 53"
    by (simp add: pow2_def)
  with x have "expo ?x < 53" by (rule expo_less)
  then have "max (expo ?x) (- 1022) - 52 \<le> 0" by simp
  then obtain j where k: "max (expo ?x) (- 1022) - 52 = - int j"
    by (metis neg_0_le_iff_le nonneg_int_cases minus_minus)
  have u: "pow2 (- int j) = 1 / 2 ^ j" by (rule pow2_neg_nat)
  have "rat_of_nat n * 2 ^ j = rat_of_int (int n * 2 ^ j)" by simp
  then have r: "round_even (rat_of_nat n * 2 ^ j) = int n * 2 ^ j"
    by (simp only: round_even_of_int)
  from lt have nov: "\<not> overflow_threshold \<le> ?x"
    by (simp add: overflow_threshold_def pow2_def)
  have "round_number ?x =
      (let y = rat_of_int (round_even (?x / (1 / 2 ^ j))) * (1 / 2 ^ j) in
       if y = 0 then Zero False
       else if overflow_threshold \<le> y then Infinity False else Finite y)"
    using x by (simp add: round_number_def Let_def k u)
  also have "rat_of_int (round_even (?x / (1 / 2 ^ j))) * (1 / 2 ^ j) = ?x"
    by (simp add: r)
  finally show ?thesis
    using x nov by (simp add: Let_def)
qed

lemma round_number_unit:
  assumes pos: "0 < x" and le: "x \<le> 1"
  shows "\<exists>y. value_of (round_number x) = Some y \<and> \<bar>y - x\<bar> \<le> 1 / 2 ^ 53"
proof -
  have "x < pow2 1" using le by (simp add: pow2_def)
  with pos have "expo x < 1" by (rule expo_less)
  then have "max (expo x) (- 1022) - 52 \<le> - 52" by simp
  then have "pow2 (max (expo x) (- 1022) - 52) \<le> pow2 (- 52)" by (rule pow2_mono)
  also have "\<dots> = 1 / 2 ^ 52" by (simp add: pow2_def)
  finally have small: "pow2 (max (expo x) (- 1022) - 52) \<le> 1 / 2 ^ 52" .
  define u where "u = pow2 (max (expo x) (- 1022) - 52)"
  define y where "y = rat_of_int (round_even (x / u)) * u"
  have upos: "0 < u" by (simp add: u_def pow2_pos)
  have ule: "u \<le> 1 / 2 ^ 52" using small by (simp add: u_def)
  have "\<bar>rat_of_int (round_even (x / u)) - x / u\<bar> \<le> 1 / 2" by (rule round_even_error)
  then have "\<bar>rat_of_int (round_even (x / u)) - x / u\<bar> * u \<le> 1 / 2 * u"
    using upos by (simp add: mult_right_mono)
  moreover have "\<bar>rat_of_int (round_even (x / u)) - x / u\<bar> * u = \<bar>y - x\<bar>"
  proof -
    have "\<bar>rat_of_int (round_even (x / u)) - x / u\<bar> * u
        = \<bar>(rat_of_int (round_even (x / u)) - x / u) * u\<bar>"
      using upos by (simp add: abs_mult)
    also have "(rat_of_int (round_even (x / u)) - x / u) * u = y - x"
      using upos by (simp add: y_def algebra_simps)
    finally show ?thesis .
  qed
  ultimately have "\<bar>y - x\<bar> \<le> 1 / 2 * u" by simp
  also have "\<dots> \<le> 1 / 2 * (1 / 2 ^ 52)" using ule by simp
  also have "\<dots> = 1 / 2 ^ 53" by simp
  finally have err: "\<bar>y - x\<bar> \<le> 1 / 2 ^ 53" .
  have "y - x \<le> \<bar>y - x\<bar>" by simp
  with err have "y - x \<le> 1 / 2 ^ 53" by (rule order_trans [rotated])
  moreover have "(1::rat) / 2 ^ 53 \<le> 1" by simp
  ultimately have "y \<le> 2" using le by linarith
  then have nov: "\<not> overflow_threshold \<le> y"
    by (simp add: overflow_threshold_def)
  have "round_number x =
      (if y = 0 then Zero False else if overflow_threshold \<le> y then Infinity False else Finite y)"
    using pos by (simp add: round_number_def Let_def y_def u_def)
  with nov have rn: "round_number x = (if y = 0 then Zero False else Finite y)"
    by simp
  show ?thesis
  proof (cases "y = 0")
    case True
    with err rn show ?thesis by simp
  next
    case False
    with err rn show ?thesis by simp
  qed
qed

lemma expo_upper:
  assumes pos: "0 < x"
  shows "x < pow2 (expo x + 1)"
proof (cases "1 \<le> x")
  case True
  then have n: "0 < \<lfloor>x\<rfloor>" by simp
  let ?b = "bitlen \<lfloor>x\<rfloor>"
  from bitlen_bounds [OF n] have "\<lfloor>x\<rfloor> < 2 ^ nat ?b" by simp
  then have "\<lfloor>x\<rfloor> + 1 \<le> 2 ^ nat ?b" by simp
  then have "rat_of_int (\<lfloor>x\<rfloor> + 1) \<le> rat_of_int (2 ^ nat ?b)"
    by (simp only: of_int_le_iff)
  then have "rat_of_int \<lfloor>x\<rfloor> + 1 \<le> 2 ^ nat ?b" by simp
  moreover have "x < rat_of_int \<lfloor>x\<rfloor> + 1" by linarith
  ultimately have "x < 2 ^ nat ?b" by (rule less_le_trans [rotated])
  moreover have "0 \<le> ?b" by (rule bitlen_nonneg)
  then have "pow2 ?b = 2 ^ nat ?b" by (simp add: pow2_def)
  ultimately show ?thesis using True by (simp add: expo_def)
next
  case False
  with pos have inv: "1 < 1 / x" by simp
  then have "1 < \<lceil>1 / x\<rceil>" by (simp add: less_ceiling_iff)
  then have n: "0 < \<lceil>1 / x\<rceil> - 1" by simp
  let ?b = "bitlen (\<lceil>1 / x\<rceil> - 1)"
  have b1: "1 \<le> ?b"
  proof (rule ccontr)
    assume "\<not> 1 \<le> ?b"
    then have "nat ?b = 0" by simp
    with bitlen_bounds [OF n] have "\<lceil>1 / x\<rceil> - 1 < 1" by simp
    with n show False by simp
  qed
  from bitlen_bounds [OF n] have "2 ^ nat (?b - 1) \<le> \<lceil>1 / x\<rceil> - 1" by simp
  then have "rat_of_int (2 ^ nat (?b - 1)) \<le> rat_of_int (\<lceil>1 / x\<rceil> - 1)"
    by (simp only: of_int_le_iff)
  then have "2 ^ nat (?b - 1) \<le> rat_of_int \<lceil>1 / x\<rceil> - 1" by simp
  moreover have "rat_of_int \<lceil>1 / x\<rceil> - 1 < 1 / x" by linarith
  ultimately have "2 ^ nat (?b - 1) < 1 / x" by (rule le_less_trans)
  with pos have "x * 2 ^ nat (?b - 1) < 1"
    by (simp add: field_simps)
  then have "x < 1 / 2 ^ nat (?b - 1)"
    by (simp add: field_simps)
  moreover have "pow2 (- ?b + 1) = 1 / 2 ^ nat (?b - 1)"
    using pow2_neg_nat [of "nat (?b - 1)"] b1 by simp
  ultimately show ?thesis using False by (simp add: expo_def)
qed


lemma overflow_threshold_power: "overflow_threshold = 2 ^ 1024"
proof -
  have a: "(2::rat) ^ 64 = 18446744073709551616" by simp
  have b: "(2::rat) ^ 256 = (2 ^ 64) ^ 4" by (simp flip: power_mult)
  have c: "(2::rat) ^ 1024 = (2 ^ 256) ^ 4" by (simp flip: power_mult)
  show ?thesis
    unfolding c b a overflow_threshold_def by (simp add: power4_eq_xxxx)
qed


lemma count_add:
  assumes "a + b < 2 ^ 53"
  shows "num_add (count a) (count b) = count (a + b)"
proof (cases "a = 0 \<or> b = 0")
  case True
  then show ?thesis by (auto simp add: count_def)
next
  case False
  then have pos: "0 < a + b" by simp
  have sum: "rat_of_nat a + rat_of_nat b = rat_of_nat (a + b)" by simp
  from False have "num_add (count a) (count b) = round_number (rat_of_nat a + rat_of_nat b)"
    by (simp add: count_def)
  also have "\<dots> = Finite (rat_of_nat (a + b))"
    unfolding sum using pos assms by (rule round_number_count)
  also from pos have "\<dots> = count (a + b)"
    by (simp add: count_def)
  finally show ?thesis .
qed

lemma count_max_one: "0 < s \<Longrightarrow> max_one (count s) = count s"
  by (auto simp add: count_def)

lemma count_div:
  assumes "n \<le> s" and "0 < s"
  shows "\<exists>y. value_of (num_div (count n) (count s)) = Some y
           \<and> \<bar>y - rat_of_nat n / rat_of_nat s\<bar> \<le> 1 / 2 ^ 53"
proof (cases "n = 0")
  case True
  with assms show ?thesis by (simp add: count_def)
next
  case False
  with assms have "0 < rat_of_nat n / rat_of_nat s" "rat_of_nat n / rat_of_nat s \<le> 1"
    by simp_all
  from round_number_unit [OF this] False assms show ?thesis
    by (simp add: count_def)
qed

section \<open>Rendering the pie\<close>

lemma day_at_in_range: "i < length days \<Longrightarrow> day_at days i = Inr (days ! i)"
  by (simp add: day_at_def)

lemma day_at_out_of_range: "length days \<le> i \<Longrightarrow> day_at days i = Inl TypeError"
  by (simp add: day_at_def)

lemma render_out_of_range: "length days \<le> idx st \<Longrightarrow> render days st = Inl TypeError"
  by (simp add: render_def total_of_def day_at_out_of_range)

lemma render_in_range:
  assumes "idx st < length days"
    and "d = days ! idx st"
    and "tot = max_one (num_add (num_add (encrypted d) (pending d)) (failed d))"
  shows "render days st =
     Inr \<lparr>v_total = tot,
          v_segs =
            [\<lparr>seg_label = str ''Encrypted'', seg_val = encrypted d,
              seg_frac = num_div (encrypted d) tot, seg_color = str ''#16c2c2''\<rparr>,
             \<lparr>seg_label = str ''Pending'', seg_val = pending d,
              seg_frac = num_div (pending d) tot, seg_color = str ''#94a3b8''\<rparr>,
             \<lparr>seg_label = str ''Failed'', seg_val = failed d,
              seg_frac = num_div (failed d) tot, seg_color = str ''#fbbf24''\<rparr>],
          v_day = day d,
          v_percent = num_mul (num_div (encrypted d) tot) (Finite 100),
          v_disabled = playing st\<rparr>"
  using assms by (simp add: render_def total_of_def segs_def day_at_in_range f_def)

lemma render_succeeds: "idx st < length days \<Longrightarrow> \<exists>v. render days st = Inr v"
  by (simp add: render_in_range)

lemma max_one_not_zero: "max_one s \<noteq> Zero sg"
  by (cases s) simp_all

lemma pie_inv_init: "days \<noteq> [] \<Longrightarrow> pie_inv days pie_init"
  by (simp add: pie_inv_def pie_init_def)

lemma pie_inv_step: "pie_inv days st \<Longrightarrow> pie_inv days (pie_step days st ev)"
  by (cases ev)
     (auto simp add: pie_inv_def start_def tick_def teardown_def Let_def split: option.splits)

lemma pie_inv_run: "pie_inv days st \<Longrightarrow> pie_inv days (pie_run days st evs)"
proof (induction evs arbitrary: st)
  case Nil
  then show ?case by (simp add: pie_run_def)
next
  case (Cons ev evs)
  from Cons.prems have "pie_inv days (pie_step days st ev)"
    by (rule pie_inv_step)
  then have "pie_inv days (pie_run days (pie_step days st ev) evs)"
    by (rule Cons.IH)
  then show ?case by (simp add: pie_run_def)
qed


lemma sixth_total:
  "max_one (num_add (num_add (Finite 1) (Finite 4)) (Finite 1)) = Finite 6"
  by code_simp

lemma sixth_small: "num_div (Finite 1) (Finite 6) = Finite (6004799503160661 / 36028797018963968)"
  by code_simp

lemma sixth_large: "num_div (Finite 4) (Finite 6) = Finite (6004799503160661 / 9007199254740992)"
  by code_simp

lemma sixth_sum:
  "num_add (num_add (Finite (6004799503160661 / 36028797018963968))
                    (Finite (6004799503160661 / 9007199254740992)))
           (Finite (6004799503160661 / 36028797018963968)) =
   Finite (9007199254740991 / 9007199254740992)"
  by code_simp

lemma three_errors:
  fixes a b c x y z :: rat
  assumes "\<bar>a - x\<bar> \<le> e" "\<bar>b - y\<bar> \<le> e" "\<bar>c - z\<bar> \<le> e" "x + y + z = 1"
  shows "\<bar>a + b + c - 1\<bar> \<le> 3 * e"
  using assms by (simp add: abs_le_iff)


section \<open>Calls of the diagnostics panel\<close>

lemma call_resolved:
  "call rt u (Resolved st stx (Inr raw)) t0 t1 now =
     \<lparr>url = u, ok = r_ok st, status = st, statusText = stx,
      bodyPreview =
        (case previewJson rt (if raw \<noteq> [] then JSON_parse rt raw else None) 260 of
           Inr p \<Rightarrow> p
         | Inl _ \<Rightarrow> trimPreview raw 260),
      fullJson = (if raw \<noteq> [] then JSON_parse rt raw else None),
      timeMs = round (t1 - t0), at_time = now\<rparr>"
  by (simp add: call_def Let_def)

lemma call_rejected:
  "call rt u (Rejected e) t0 t1 now = call_failed u e (round (t1 - t0)) now"
  by (simp add: call_def Let_def)

lemma call_thrown:
  "awaited_text r = Inl e \<Longrightarrow> call rt u r t0 t1 now = call_failed u e (round (t1 - t0)) now"
  by (cases r) (auto simp add: call_def awaited_text_def Let_def)

lemma failure_text_nonempty: "failure_text res \<noteq> []"
  by (simp add: failure_text_def str_def)

lemma run_history:
  "history (run rt base path r t0 t1 now p) = history p @ [call rt (base @ path) r t0 t1 now]"
  by (simp add: run_def run_returned_def run_end_def run_begin_def Let_def)

lemma run_error:
  "error (run rt base path r t0 t1 now p) =
     (if ok (call rt (base @ path) r t0 t1 now)
      then None else Some (failure_text (call rt (base @ path) r t0 t1 now)))"
  by (simp add: run_def run_returned_def run_end_def run_begin_def Let_def)

lemma run_steps:
  "panel_run p [Clicked, Returned res, Ended res] = run_end res (run_returned res (run_begin p))"
  by (simp add: panel_run_def)

lemma run_end_ok: "ok res \<Longrightarrow> run_end res p = p"
  by (simp add: run_end_def)

lemma run_end_failed: "\<not> ok res \<Longrightarrow> error (run_end res p) = Some (failure_text res)"
  by (simp add: run_end_def)

lemma quiet_keeps_unset: "error p = None \<Longrightarrow> quiet evs \<Longrightarrow> error (panel_run p evs) = None"
proof (induction evs arbitrary: p)
  case Nil
  then show ?case by (simp add: panel_run_def)
next
  case (Cons ev evs)
  from Cons.prems have "error (panel_step p ev) = None"
    by (cases ev) (simp_all add: quiet_def run_begin_def run_returned_def run_end_ok)
  moreover from Cons.prems have "quiet evs"
    by (simp add: quiet_def)
  ultimately have "error (panel_run (panel_step p ev) evs) = None"
    by (rule Cons.IH)
  then show ?case by (simp add: panel_run_def)
qed

section \<open>C1: precedence of the reply extraction\<close>

text \<open>
  C1, as stated, promises a literal placeholder for a body that is not JSON and is empty.
  The empty text is not JSON, yet the source never hands it to the parser: the guard
  \<^verbatim>\<open>raw ? JSON.parse(raw) : {}\<close> probes an empty object instead, every probed field
  is undefined, and the resolved text is the empty raw text itself. The handler with the
  placeholder \<^verbatim>\<open>"(empty response)"\<close> runs on a non-empty text only.
\<close>

theorem empty_body_counterexample:
  "JSON_parse \<lparr>JSON_parse = Map.empty, JSON_stringify = (\<lambda>j. []),
                JSON_stringify2 = (\<lambda>j. []), URL_origin = Map.empty\<rparr> [] = None
   \<and> resolve_reply \<lparr>JSON_parse = Map.empty, JSON_stringify = (\<lambda>j. []),
                    JSON_stringify2 = (\<lambda>j. []), URL_origin = Map.empty\<rparr> [] = JString []
   \<and> JString [] \<noteq> JString (str ''(empty response)'')"
  by (simp add: resolve_reply_empty str_def)

text \<open>
  C1, amended. For every response body the resolved text is the first of the reply field,
  the content field, the message field and the nested first-choice message content field
  that is present and not null, else the raw body text. A body parsed to
  \<^verbatim>\<open>{"reply":"A","content":"B"}\<close> resolves to A, one parsed to
  \<^verbatim>\<open>{"content":"B","message":"C"}\<close> to B, one parsed to
  \<^verbatim>\<open>{"choices":[{"message":{"content":"D"}}]}\<close> to D, and a non-empty body that the
  parser rejects to the raw text. An empty body resolves to the empty text, with no
  placeholder at this stage; the assistant message appended for it then carries
  \<^verbatim>\<open>"(no content)"\<close>.
\<close>

theorem reply_precedence:
  "resolve_reply rt raw =
     (case (if raw \<noteq> [] then JSON_parse rt raw else Some (JObject [])) of
        None \<Rightarrow> JString raw
      | Some j \<Rightarrow>
          first_present [field j (str ''reply''), field j (str ''content''),
                         field j (str ''message''), nested_choice j] (JString raw))
   \<and> (raw \<noteq> [] \<and>
        JSON_parse rt raw =
          Some (JObject [(str ''reply'', JString (str ''A'')), (str ''content'', JString (str ''B''))])
        \<longrightarrow> resolve_reply rt raw = JString (str ''A''))
   \<and> (raw \<noteq> [] \<and>
        JSON_parse rt raw =
          Some (JObject [(str ''content'', JString (str ''B'')), (str ''message'', JString (str ''C''))])
        \<longrightarrow> resolve_reply rt raw = JString (str ''B''))
   \<and> (raw \<noteq> [] \<and>
        JSON_parse rt raw =
          Some (JObject [(str ''choices'',
                  JArray [JObject [(str ''message'', JObject [(str ''content'', JString (str ''D''))])]])])
        \<longrightarrow> resolve_reply rt raw = JString (str ''D''))
   \<and> (raw \<noteq> [] \<and> JSON_parse rt raw = None \<longrightarrow> resolve_reply rt raw = JString raw)
   \<and> resolve_reply rt [] = JString []
   \<and> assistant_content (resolve_reply rt []) = JString (str ''(no content)'')"
proof -
  have general: "resolve_reply rt raw =
     (case (if raw \<noteq> [] then JSON_parse rt raw else Some (JObject [])) of
        None \<Rightarrow> JString raw
      | Some j \<Rightarrow>
          first_present [field j (str ''reply''), field j (str ''content''),
                         field j (str ''message''), nested_choice j] (JString raw))"
    by (rule resolve_reply_eq)
  have a: "resolve_reply rt raw = JString (str ''A'')"
    if "raw \<noteq> []" "JSON_parse rt raw =
          Some (JObject [(str ''reply'', JString (str ''A'')), (str ''content'', JString (str ''B''))])"
    using that by (simp add: resolve_reply_parsed field_def str_def)
  have b: "resolve_reply rt raw = JString (str ''B'')"
    if "raw \<noteq> []" "JSON_parse rt raw =
          Some (JObject [(str ''content'', JString (str ''B'')), (str ''message'', JString (str ''C''))])"
    using that by (simp add: resolve_reply_parsed field_def str_def)
  have d: "resolve_reply rt raw = JString (str ''D'')"
    if "raw \<noteq> []" "JSON_parse rt raw =
          Some (JObject [(str ''choices'',
                  JArray [JObject [(str ''message'', JObject [(str ''content'', JString (str ''D''))])]])])"
    using that
    by (simp add: resolve_reply_parsed field_def nested_choice_def index0_def opt_chain_def str_def)
  have plain: "resolve_reply rt raw = JString raw" if "raw \<noteq> []" "JSON_parse rt raw = None"
    using that by (simp add: resolve_reply_eq)
  have e: "resolve_reply rt [] = JString []"
    by (rule resolve_reply_empty)
  have p: "assistant_content (resolve_reply rt []) = JString (str ''(no content)'')"
    by (simp add: resolve_reply_empty assistant_content_def)
  from general a b d plain e p show ?thesis by blast
qed

text \<open>
  The amended C1 at the runtime of the concrete cases: the three example bodies and the
  body \<^verbatim>\<open>plain\<close>, which its parser rejects.
\<close>

theorem reply_precedence_witness:
  "JSON_parse demo_rt (str ''{\"reply\":\"A\",\"content\":\"B\"}'') =
     Some (JObject [(str ''reply'', JString (str ''A'')), (str ''content'', JString (str ''B''))])
   \<and> resolve_reply demo_rt (str ''{\"reply\":\"A\",\"content\":\"B\"}'') = JString (str ''A'')
   \<and> JSON_parse demo_rt (str ''{\"content\":\"B\",\"message\":\"C\"}'') =
     Some (JObject [(str ''content'', JString (str ''B'')), (str ''message'', JString (str ''C''))])
   \<and> resolve_reply demo_rt (str ''{\"content\":\"B\",\"message\":\"C\"}'') = JString (str ''B'')
   \<and> JSON_parse demo_rt (str ''{\"choices\":[{\"message\":{\"content\":\"D\"}}]}'') =
     Some (JObject [(str ''choices'',
             JArray [JObject [(str ''message'', JObject [(str ''content'', JString (str ''D''))])]])])
   \<and> resolve_reply demo_rt (str ''{\"choices\":[{\"message\":{\"content\":\"D\"}}]}'') = JString (str ''D'')
   \<and> JSON_parse demo_rt (str ''plain'') = None
   \<and> resolve_reply demo_rt (str ''plain'') = JString (str ''plain'')"
proof -
  have p1: "str ''{\"reply\":\"A\",\"content\":\"B\"}'' \<noteq> [] \<and>
        JSON_parse demo_rt (str ''{\"reply\":\"A\",\"content\":\"B\"}'') =
          Some (JObject [(str ''reply'', JString (str ''A'')), (str ''content'', JString (str ''B''))])"
    by (simp add: demo_rt_def demo_parse_def str_def)
  have p2: "str ''{\"content\":\"B\",\"message\":\"C\"}'' \<noteq> [] \<and>
        JSON_parse demo_rt (str ''{\"content\":\"B\",\"message\":\"C\"}'') =
          Some (JObject [(str ''content'', JString (str ''B'')), (str ''message'', JString (str ''C''))])"
    by (simp add: demo_rt_def demo_parse_def str_def)
  have p3: "str ''{\"choices\":[{\"message\":{\"content\":\"D\"}}]}'' \<noteq> [] \<and>
        JSON_parse demo_rt (str ''{\"choices\":[{\"message\":{\"content\":\"D\"}}]}'') =
          Some (JObject [(str ''choices'',
                  JArray [JObject [(str ''message'', JObject [(str ''content'', JString (str ''D''))])]])])"
    by (simp add: demo_rt_def demo_parse_def str_def)
  have p4: "str ''plain'' \<noteq> [] \<and> JSON_parse demo_rt (str ''plain'') = None"
    by (simp add: demo_rt_def demo_parse_def str_def)
  show ?thesis
    using p1 p2 p3 p4
      reply_precedence [of demo_rt "str ''{\"reply\":\"A\",\"content\":\"B\"}''"]
      reply_precedence [of demo_rt "str ''{\"content\":\"B\",\"message\":\"C\"}''"]
      reply_precedence [of demo_rt "str ''{\"choices\":[{\"message\":{\"content\":\"D\"}}]}''"]
      reply_precedence [of demo_rt "str ''plain''"]
    by blast
qed

section \<open>C2: what one submission appends\<close>

text \<open>
  C2. A submission whose trimmed input is not empty, made while the busy flag is false,
  appends exactly one user message with the trimmed text and hands one request to the
  transport; when the request then completes with a body, exactly one assistant message
  and one system status message follow, in that order, and no further request is made.
  A submission made while busy, or with empty or white-space-only input, leaves the whole
  state as it was: no message, no request.
\<close>

theorem submit_appends_in_order:
  "(trim (input (ui w)) \<noteq> [] \<and> \<not> busy (ui w) \<longrightarrow>
      messages (ui (chat_step rt apiUrl w (Submit t0))) =
        messages (ui w) @ [\<lparr>role = User, content = JString (trim (input (ui w)))\<rparr>]
      \<and> length (sent (chat_step rt apiUrl w (Submit t0))) = length (sent w) + 1
      \<and> (awaited_text r = Inr raw \<longrightarrow>
           messages (ui (chat_run rt apiUrl w [Submit t0, Settled r t1])) =
             messages (ui w)
             @ [\<lparr>role = User, content = JString (trim (input (ui w)))\<rparr>,
                \<lparr>role = Assistant, content = assistant_content (resolve_reply rt raw)\<rparr>,
                \<lparr>role = System,
                 content = JString (status_line (elapsed_ms t0 t1) (origin rt apiUrl))\<rparr>]
           \<and> sent (chat_run rt apiUrl w [Submit t0, Settled r t1]) =
               sent (chat_step rt apiUrl w (Submit t0))))
   \<and> (trim (input (ui w)) = [] \<or> busy (ui w) \<longrightarrow> chat_step rt apiUrl w (Submit t0) = w)"
proof -
  have acc: "messages (ui (chat_step rt apiUrl w (Submit t0))) =
        messages (ui w) @ [\<lparr>role = User, content = JString (trim (input (ui w)))\<rparr>]
      \<and> length (sent (chat_step rt apiUrl w (Submit t0))) = length (sent w) + 1"
    if "trim (input (ui w)) \<noteq> []" "\<not> busy (ui w)"
    using that by (simp add: submit_accepted del: chat_step.simps)
  have fin: "messages (ui (chat_run rt apiUrl w [Submit t0, Settled r t1])) =
             messages (ui w)
             @ [\<lparr>role = User, content = JString (trim (input (ui w)))\<rparr>,
                \<lparr>role = Assistant, content = assistant_content (resolve_reply rt raw)\<rparr>,
                \<lparr>role = System,
                 content = JString (status_line (elapsed_ms t0 t1) (origin rt apiUrl))\<rparr>]
           \<and> sent (chat_run rt apiUrl w [Submit t0, Settled r t1]) =
               sent (chat_step rt apiUrl w (Submit t0))"
    if "trim (input (ui w)) \<noteq> []" "\<not> busy (ui w)" "awaited_text r = Inr raw"
    using that by (simp add: chat_run_two submit_accepted send_finish_ok del: chat_step.simps(2))
  have rej: "chat_step rt apiUrl w (Submit t0) = w" if "trim (input (ui w)) = [] \<or> busy (ui w)"
    using that by (rule submit_rejected)
  from acc fin rej show ?thesis by blast
qed

text \<open>
  C2 at the three concrete states: the question is answered by the body
  \<^verbatim>\<open>plain\<close> after 12 ms; the submissions on the busy state and on the blank one
  change nothing.
\<close>

theorem submit_appends_in_order_witness:
  "trim (input (ui typed_world)) = str ''status?'' \<and> \<not> busy (ui typed_world)
   \<and> awaited_text (Resolved 200 (str ''OK'') (Inr (str ''plain''))) = Inr (str ''plain'')
   \<and> messages (ui (chat_run demo_rt demo_url typed_world
                     [Submit 0, Settled (Resolved 200 (str ''OK'') (Inr (str ''plain''))) 12])) =
       [\<lparr>role = User, content = JString (str ''hi'')\<rparr>,
        \<lparr>role = Assistant, content = JString (str ''hello'')\<rparr>,
        \<lparr>role = User, content = JString (str ''status?'')\<rparr>,
        \<lparr>role = Assistant, content = JString (str ''plain'')\<rparr>,
        \<lparr>role = System, content = JString (status_line 12 demo_url)\<rparr>]
   \<and> busy (ui busy_world)
   \<and> chat_step demo_rt demo_url busy_world (Submit 5) = busy_world
   \<and> trim (input (ui blank_world)) = []
   \<and> chat_step demo_rt demo_url blank_world (Submit 5) = blank_world"
proof -
  let ?r = "Resolved 200 (str ''OK'') (Inr (str ''plain''))"
  have h1: "trim (input (ui typed_world)) \<noteq> [] \<and> \<not> busy (ui typed_world)"
    by (simp add: trim_typed) (simp add: typed_world_def str_def)
  have h2: "awaited_text ?r = Inr (str ''plain'')"
    by (simp add: awaited_text_def)
  have h3: "busy (ui busy_world)"
    by (simp add: busy_world_def)
  have ms: "messages (ui typed_world) =
      [\<lparr>role = User, content = JString (str ''hi'')\<rparr>,
       \<lparr>role = Assistant, content = JString (str ''hello'')\<rparr>]"
    by (simp add: typed_world_def)
  have ac: "assistant_content (JString (str ''plain'')) = JString (str ''plain'')"
    by (simp add: assistant_content_def str_def)
  have og: "origin demo_rt demo_url = demo_url"
    by (simp add: origin_def demo_rt_def)
  have run: "messages (ui (chat_run demo_rt demo_url typed_world [Submit 0, Settled ?r 12])) =
      messages (ui typed_world)
      @ [\<lparr>role = User, content = JString (trim (input (ui typed_world)))\<rparr>,
         \<lparr>role = Assistant, content = assistant_content (resolve_reply demo_rt (str ''plain''))\<rparr>,
         \<lparr>role = System,
          content = JString (status_line (elapsed_ms 0 12) (origin demo_rt demo_url))\<rparr>]"
    using h1 h2
      submit_appends_in_order [where w = typed_world and rt = demo_rt and apiUrl = demo_url
        and r = "?r" and raw = "str ''plain''" and ?t0.0 = 0 and ?t1.0 = 12]
    by blast
  have rej1: "chat_step demo_rt demo_url busy_world (Submit 5) = busy_world"
    using h3 submit_appends_in_order [where w = busy_world and rt = demo_rt and apiUrl = demo_url
        and ?t0.0 = 5]
    by blast
  have rej2: "chat_step demo_rt demo_url blank_world (Submit 5) = blank_world"
    using trim_blank submit_appends_in_order [where w = blank_world and rt = demo_rt
        and apiUrl = demo_url and ?t0.0 = 5]
    by blast
  from run have run': "messages (ui (chat_run demo_rt demo_url typed_world [Submit 0, Settled ?r 12])) =
       [\<lparr>role = User, content = JString (str ''hi'')\<rparr>,
        \<lparr>role = Assistant, content = JString (str ''hello'')\<rparr>,
        \<lparr>role = User, content = JString (str ''status?'')\<rparr>,
        \<lparr>role = Assistant, content = JString (str ''plain'')\<rparr>,
        \<lparr>role = System, content = JString (status_line 12 demo_url)\<rparr>]"
    by (simp only: ms trim_typed plain_reply ac og elapsed_twelve append.simps)
  from h1 h2 h3 run' rej1 rej2 trim_typed trim_blank show ?thesis
    by blast
qed

section \<open>C6: transport failure\<close>

text \<open>
  C6. When an accepted submission's request throws (in \<^verbatim>\<open>fetch\<close> or while the body
  is read), exactly one system failure message is appended after the user message, no
  assistant message is, and the recorded error string is not empty. The busy flag, set
  when the submission is accepted, is false once the submission has ended, whether the
  request delivered or threw.
\<close>

theorem transport_failure:
  "(trim (input (ui w)) \<noteq> [] \<and> \<not> busy (ui w) \<and> awaited_text r = Inl e \<longrightarrow>
      messages (ui (chat_run rt apiUrl w [Submit t0, Settled r t1])) =
        messages (ui w)
        @ [\<lparr>role = User, content = JString (trim (input (ui w)))\<rparr>,
           \<lparr>role = System, content = JString failure_line\<rparr>]
      \<and> err (ui (chat_run rt apiUrl w [Submit t0, Settled r t1])) = Some (err_text e)
      \<and> err_text e \<noteq> [])
   \<and> (trim (input (ui w)) \<noteq> [] \<and> \<not> busy (ui w) \<longrightarrow>
        busy (ui (chat_step rt apiUrl w (Submit t0)))
        \<and> \<not> busy (ui (chat_run rt apiUrl w [Submit t0, Settled r t1])))"
proof -
  have fail: "messages (ui (chat_run rt apiUrl w [Submit t0, Settled r t1])) =
        messages (ui w)
        @ [\<lparr>role = User, content = JString (trim (input (ui w)))\<rparr>,
           \<lparr>role = System, content = JString failure_line\<rparr>]
      \<and> err (ui (chat_run rt apiUrl w [Submit t0, Settled r t1])) = Some (err_text e)"
    if "trim (input (ui w)) \<noteq> []" "\<not> busy (ui w)" "awaited_text r = Inl e"
    using that by (simp add: chat_run_two submit_accepted send_finish_failed del: chat_step.simps(2))
  have fin: "busy (ui (chat_step rt apiUrl w (Submit t0)))
        \<and> \<not> busy (ui (chat_run rt apiUrl w [Submit t0, Settled r t1]))"
    if "trim (input (ui w)) \<noteq> []" "\<not> busy (ui w)"
    using that by (simp add: chat_run_two submit_accepted send_finish_not_busy del: chat_step.simps(2))
  from fail fin err_text_nonempty [of e] show ?thesis by blast
qed

text \<open>
  C6 at the concrete state: the request rejects with \<^verbatim>\<open>Failed to fetch\<close>; and the
  busy flag is cleared as well when a response of status 500 arrives.
\<close>

theorem transport_failure_witness:
  "trim (input (ui typed_world)) = str ''status?'' \<and> \<not> busy (ui typed_world)
   \<and> awaited_text (Rejected (Thrown (Some (str ''Failed to fetch'')))) =
       Inl (Thrown (Some (str ''Failed to fetch'')))
   \<and> messages (ui (chat_run demo_rt demo_url typed_world
                     [Submit 0, Settled (Rejected (Thrown (Some (str ''Failed to fetch'')))) 12])) =
       [\<lparr>role = User, content = JString (str ''hi'')\<rparr>,
        \<lparr>role = Assistant, content = JString (str ''hello'')\<rparr>,
        \<lparr>role = User, content = JString (str ''status?'')\<rparr>,
        \<lparr>role = System, content = JString failure_line\<rparr>]
   \<and> err (ui (chat_run demo_rt demo_url typed_world
                [Submit 0, Settled (Rejected (Thrown (Some (str ''Failed to fetch'')))) 12])) =
       Some (str ''Failed to fetch'')
   \<and> busy (ui (chat_step demo_rt demo_url typed_world (Submit 0)))
   \<and> \<not> busy (ui (chat_run demo_rt demo_url typed_world
                     [Submit 0, Settled (Rejected (Thrown (Some (str ''Failed to fetch'')))) 12]))
   \<and> \<not> busy (ui (chat_run demo_rt demo_url typed_world
                     [Submit 0, Settled (Resolved 500 (str ''Internal Server Error'') (Inr [])) 12]))"
proof -
  let ?e = "Thrown (Some (str ''Failed to fetch''))"
  let ?r = "Rejected ?e"
  let ?r' = "Resolved 500 (str ''Internal Server Error'') (Inr [])"
  have h1: "trim (input (ui typed_world)) \<noteq> [] \<and> \<not> busy (ui typed_world)"
    by (simp add: trim_typed) (simp add: typed_world_def str_def)
  have h2: "awaited_text ?r = Inl ?e"
    by (simp add: awaited_text_def)
  have ms: "messages (ui typed_world) =
      [\<lparr>role = User, content = JString (str ''hi'')\<rparr>,
       \<lparr>role = Assistant, content = JString (str ''hello'')\<rparr>]"
    by (simp add: typed_world_def)
  have et: "err_text ?e = str ''Failed to fetch''"
    by (simp add: err_text_def str_def)
  have fail: "messages (ui (chat_run demo_rt demo_url typed_world [Submit 0, Settled ?r 12])) =
        messages (ui typed_world)
        @ [\<lparr>role = User, content = JString (trim (input (ui typed_world)))\<rparr>,
           \<lparr>role = System, content = JString failure_line\<rparr>]
      \<and> err (ui (chat_run demo_rt demo_url typed_world [Submit 0, Settled ?r 12])) =
          Some (err_text ?e)"
    using h1 h2
      transport_failure [where w = typed_world and rt = demo_rt and apiUrl = demo_url
        and r = "?r" and e = "?e" and ?t0.0 = 0 and ?t1.0 = 12]
    by blast
  have fin: "busy (ui (chat_step demo_rt demo_url typed_world (Submit 0)))
      \<and> \<not> busy (ui (chat_run demo_rt demo_url typed_world [Submit 0, Settled ?r 12]))"
    using h1
      transport_failure [where w = typed_world and rt = demo_rt and apiUrl = demo_url
        and r = "?r" and e = "?e" and ?t0.0 = 0 and ?t1.0 = 12]
    by blast
  have fin': "\<not> busy (ui (chat_run demo_rt demo_url typed_world [Submit 0, Settled ?r' 12]))"
    using h1
      transport_failure [where w = typed_world and rt = demo_rt and apiUrl = demo_url
        and r = "?r'" and e = "?e" and ?t0.0 = 0 and ?t1.0 = 12]
    by blast
  from fail have fail': "messages (ui (chat_run demo_rt demo_url typed_world [Submit 0, Settled ?r 12])) =
       [\<lparr>role = User, content = JString (str ''hi'')\<rparr>,
        \<lparr>role = Assistant, content = JString (str ''hello'')\<rparr>,
        \<lparr>role = User, content = JString (str ''status?'')\<rparr>,
        \<lparr>role = System, content = JString failure_line\<rparr>]
      \<and> err (ui (chat_run demo_rt demo_url typed_world [Submit 0, Settled ?r 12])) =
          Some (str ''Failed to fetch'')"
    by (simp only: ms trim_typed et append.simps)
  from h1 h2 fail' fin fin' trim_typed show ?thesis
    by blast
qed

section \<open>C7: the request body\<close>

text \<open>
  C7. An accepted submission with transcript \<open>m\<close> and trimmed input \<open>t\<close> issues exactly
  one request: a POST to the configured address whose body is the serialisation of
  \<^verbatim>\<open>{ messages: L }\<close>, where \<open>L\<close> is \<open>m\<close> in order, each message reduced to its role
  and content, followed by \<^verbatim>\<open>{ role: "user", content: t }\<close>. A rejected submission,
  the completion of a request and typing issue none.
\<close>

theorem request_body_is_transcript:
  "(trim (input (ui w)) \<noteq> [] \<and> \<not> busy (ui w) \<longrightarrow>
      sent (chat_step rt apiUrl w (Submit t0)) =
        sent w @ [\<lparr>req_url = apiUrl, req_method = str ''POST'',
                   req_headers = [(str ''Content-Type'', str ''application/json'')],
                   req_body = JSON_stringify rt
                     (spec_request_json (messages (ui w)) (trim (input (ui w))))\<rparr>])
   \<and> (trim (input (ui w)) = [] \<or> busy (ui w) \<longrightarrow>
        sent (chat_step rt apiUrl w (Submit t0)) = sent w)
   \<and> sent (chat_step rt apiUrl w (Settled r t1)) = sent w
   \<and> sent (chat_step rt apiUrl w (Typed s)) = sent w"
proof -
  have acc: "sent (chat_step rt apiUrl w (Submit t0)) =
        sent w @ [\<lparr>req_url = apiUrl, req_method = str ''POST'',
                   req_headers = [(str ''Content-Type'', str ''application/json'')],
                   req_body = JSON_stringify rt
                     (spec_request_json (messages (ui w)) (trim (input (ui w))))\<rparr>]"
    if "trim (input (ui w)) \<noteq> []" "\<not> busy (ui w)"
    using that by (simp add: submit_accepted request_body_spec del: chat_step.simps)
  have rej: "sent (chat_step rt apiUrl w (Submit t0)) = sent w"
    if "trim (input (ui w)) = [] \<or> busy (ui w)"
    using that by (simp add: submit_rejected del: chat_step.simps)
  have settled: "sent (chat_step rt apiUrl w (Settled r t1)) = sent w"
    by (simp split: option.splits)
  have typed: "sent (chat_step rt apiUrl w (Typed s)) = sent w"
    by simp
  from acc rej settled typed show ?thesis by blast
qed

text \<open>
  C7 at the concrete state with one exchange behind it, and at the busy state.
\<close>

theorem request_body_is_transcript_witness:
  "trim (input (ui typed_world)) = str ''status?'' \<and> \<not> busy (ui typed_world)
   \<and> sent (chat_step demo_rt demo_url typed_world (Submit 0)) =
       [\<lparr>req_url = demo_url, req_method = str ''POST'',
         req_headers = [(str ''Content-Type'', str ''application/json'')],
         req_body = JSON_stringify demo_rt
           (JObject [(str ''messages'',
              JArray [JObject [(str ''role'', JString (str ''user'')),
                               (str ''content'', JString (str ''hi''))],
                      JObject [(str ''role'', JString (str ''assistant'')),
                               (str ''content'', JString (str ''hello''))],
                      JObject [(str ''role'', JString (str ''user'')),
                               (str ''content'', JString (str ''status?''))]])])\<rparr>]
   \<and> busy (ui busy_world)
   \<and> sent (chat_step demo_rt demo_url busy_world (Submit 5)) = sent busy_world"
proof -
  have h1: "trim (input (ui typed_world)) \<noteq> [] \<and> \<not> busy (ui typed_world)"
    by (simp add: trim_typed) (simp add: typed_world_def str_def)
  have h3: "busy (ui busy_world)"
    by (simp add: busy_world_def)
  have ms: "messages (ui typed_world) =
      [\<lparr>role = User, content = JString (str ''hi'')\<rparr>,
       \<lparr>role = Assistant, content = JString (str ''hello'')\<rparr>]"
    by (simp add: typed_world_def)
  have st: "sent typed_world = []"
    by (simp add: typed_world_def)
  have js: "spec_request_json
        [\<lparr>role = User, content = JString (str ''hi'')\<rparr>,
         \<lparr>role = Assistant, content = JString (str ''hello'')\<rparr>] (str ''status?'') =
      JObject [(str ''messages'',
              JArray [JObject [(str ''role'', JString (str ''user'')),
                               (str ''content'', JString (str ''hi''))],
                      JObject [(str ''role'', JString (str ''assistant'')),
                               (str ''content'', JString (str ''hello''))],
                      JObject [(str ''role'', JString (str ''user'')),
                               (str ''content'', JString (str ''status?''))]])]"
    by (simp add: spec_request_json_def reduced_def)
  have acc: "sent (chat_step demo_rt demo_url typed_world (Submit 0)) =
        sent typed_world @ [\<lparr>req_url = demo_url, req_method = str ''POST'',
                   req_headers = [(str ''Content-Type'', str ''application/json'')],
                   req_body = JSON_stringify demo_rt
                     (spec_request_json (messages (ui typed_world))
                        (trim (input (ui typed_world))))\<rparr>]"
    using h1
      request_body_is_transcript [where w = typed_world and rt = demo_rt and apiUrl = demo_url
        and ?t0.0 = 0]
    by blast
  have rej: "sent (chat_step demo_rt demo_url busy_world (Submit 5)) = sent busy_world"
    using h3
      request_body_is_transcript [where w = busy_world and rt = demo_rt and apiUrl = demo_url
        and ?t0.0 = 5]
    by blast
  from acc have acc': "sent (chat_step demo_rt demo_url typed_world (Submit 0)) =
       [\<lparr>req_url = demo_url, req_method = str ''POST'',
         req_headers = [(str ''Content-Type'', str ''application/json'')],
         req_body = JSON_stringify demo_rt
           (JObject [(str ''messages'',
              JArray [JObject [(str ''role'', JString (str ''user'')),
                               (str ''content'', JString (str ''hi''))],
                      JObject [(str ''role'', JString (str ''assistant'')),
                               (str ''content'', JString (str ''hello''))],
                      JObject [(str ''role'', JString (str ''user'')),
                               (str ''content'', JString (str ''status?''))]])])\<rparr>]"
    by (simp only: ms st trim_typed js append.simps)
  from h1 h3 acc' rej trim_typed show ?thesis
    by blast
qed

section \<open>C8: transcript and call history are append-only\<close>

text \<open>
  C8. Every step of the chat terminal leaves the earlier transcript as the beginning of the
  later one, and every step of the diagnostics panel does the same to the call history:
  a step appends at the end (possibly nothing) and never reorders, removes or merges.
  Hence after any sequence of operations the sequence of an earlier state is a prefix of
  the sequence of every later state.
\<close>

theorem sequences_append_only:
  "prefix (messages (ui (chat_run rt apiUrl w evs)))
          (messages (ui (chat_run rt apiUrl w (evs @ evs'))))
   \<and> prefix (history (panel_run p pevs)) (history (panel_run p (pevs @ pevs')))
   \<and> (\<exists>new. messages (ui (chat_step rt apiUrl w ev)) = messages (ui w) @ new)
   \<and> (\<exists>new. history (panel_step p pev) = history p @ new)"
proof -
  have c: "prefix (messages (ui (chat_run rt apiUrl w evs)))
          (messages (ui (chat_run rt apiUrl w (evs @ evs'))))"
    by (simp add: chat_run_append chat_run_prefix)
  have h: "prefix (history (panel_run p pevs)) (history (panel_run p (pevs @ pevs')))"
    by (simp add: panel_run_append panel_run_prefix)
  have c1: "\<exists>new. messages (ui (chat_step rt apiUrl w ev)) = messages (ui w) @ new"
    using chat_step_prefix [of w rt apiUrl ev] by (simp add: prefix_def)
  have h1: "\<exists>new. history (panel_step p pev) = history p @ new"
    using panel_step_prefix [of p pev] by (simp add: prefix_def)
  from c h c1 h1 show ?thesis by blast
qed

section \<open>C3: playback\<close>

text \<open>
  C3, as stated, lets the index reach the length of the snapshot array. In the source the
  counter that reaches the length is the local variable \<open>step\<close> of the timer callback;
  the callback returns before \<^verbatim>\<open>setI(step)\<close> when \<open>step\<close> is the length, so the index
  stops one short of it. On four snapshots the index takes the values 0, 1, 2, 3 and is
  still 3 when the fourth timeout has cleared the playing flag.
\<close>

theorem index_stops_short_counterexample:
  "length demo_days = 4
   \<and> idx (start demo_days pie_init) = 0
   \<and> idx (tick demo_days (start demo_days pie_init)) = 1
   \<and> idx (tick demo_days (tick demo_days (start demo_days pie_init))) = 2
   \<and> idx (tick demo_days (tick demo_days (tick demo_days (start demo_days pie_init)))) = 3
   \<and> playing (tick demo_days (tick demo_days (tick demo_days (start demo_days pie_init))))
   \<and> idx (tick demo_days (tick demo_days (tick demo_days (tick demo_days
          (start demo_days pie_init))))) = 3
   \<and> \<not> playing (tick demo_days (tick demo_days (tick demo_days (tick demo_days
          (start demo_days pie_init)))))
   \<and> idx (play demo_days (start demo_days pie_init)) = 3
   \<and> idx (play demo_days (start demo_days pie_init)) \<noteq> length demo_days"
proof -
  have idle: "\<not> playing pie_init"
    by (simp add: pie_init_def)
  have p: "play demo_days (start demo_days pie_init) =
      pie_init\<lparr>playing := False, idx := length demo_days - 1, tRef := None\<rparr>"
    using idle by (rule play_start)
  then have q: "idx (play demo_days (start demo_days pie_init)) = 3"
    by (simp add: demo_length)
  show ?thesis
    unfolding q by (simp add: demo_start demo_tick demo_length)
qed

text \<open>
  C3, amended. Starting playback is a no-op when the playing flag is set. Otherwise it
  sets the flag, resets the index to zero and schedules a timeout of 1200 ms; the \<open>k\<close>-th
  timeout to fire sets the index to \<open>k\<close> and schedules the next one with the same delay,
  as long as \<open>k\<close> is below the length of the snapshot array. The timeout whose step
  counter reaches the length (the first one, for an array of at most one snapshot) leaves
  the index at the last snapshot, sets the playing flag back to false and schedules
  nothing: playback has stopped, with the index at length minus one.
\<close>

theorem playback_steps:
  "(playing st \<longrightarrow> start days st = st)
   \<and> (\<not> playing st \<longrightarrow>
        start days st = st\<lparr>playing := True, idx := 0, tRef := Some \<lparr>delay = 1200, step = 0\<rparr>\<rparr>)
   \<and> (\<not> playing st \<and> k < length days \<longrightarrow>
        (tick days ^^ k) (start days st) =
          st\<lparr>playing := True, idx := k, tRef := Some \<lparr>delay = 1200, step = k\<rparr>\<rparr>)
   \<and> (\<not> playing st \<longrightarrow>
        (tick days ^^ (max 1 (length days))) (start days st) =
          st\<lparr>playing := False, idx := length days - 1, tRef := None\<rparr>
        \<and> play days (start days st) =
          st\<lparr>playing := False, idx := length days - 1, tRef := None\<rparr>)"
  using start_playing [of st days] start_idle [of st days] ticks_advance [of st k days]
    ticks_stop [of st days] play_start [of st days]
  by blast

text \<open>
  The amended C3 on the four snapshots: a second start while playing changes nothing, two
  timeouts lead to index 2, the fourth ends the playback at index 3.
\<close>

theorem playback_steps_witness:
  "playing (start demo_days pie_init)
   \<and> start demo_days (start demo_days pie_init) = start demo_days pie_init
   \<and> \<not> playing pie_init \<and> (2::nat) < length demo_days
   \<and> (tick demo_days ^^ 2) (start demo_days pie_init) =
       \<lparr>idx = 2, playing = True, tRef = Some \<lparr>delay = 1200, step = 2\<rparr>\<rparr>
   \<and> (tick demo_days ^^ 4) (start demo_days pie_init) =
       \<lparr>idx = 3, playing = False, tRef = None\<rparr>
   \<and> play demo_days (start demo_days pie_init) = \<lparr>idx = 3, playing = False, tRef = None\<rparr>"
proof -
  have h1: "playing (start demo_days pie_init)"
    by (simp add: demo_start)
  have h2: "\<not> playing pie_init"
    by (simp add: pie_init_def)
  have h3: "(2::nat) < length demo_days"
    by (simp add: demo_length)
  have m: "max 1 (length demo_days) = 4"
    by (simp add: demo_length)
  have a: "start demo_days (start demo_days pie_init) = start demo_days pie_init"
    using h1 playback_steps [where st = "start demo_days pie_init" and days = demo_days] by blast
  have b: "(tick demo_days ^^ 2) (start demo_days pie_init) =
       pie_init\<lparr>playing := True, idx := 2, tRef := Some \<lparr>delay = 1200, step = 2\<rparr>\<rparr>"
    using h2 h3 playback_steps [where st = pie_init and days = demo_days and k = 2] by blast
  have c: "(tick demo_days ^^ (max 1 (length demo_days))) (start demo_days pie_init) =
          pie_init\<lparr>playing := False, idx := length demo_days - 1, tRef := None\<rparr>
        \<and> play demo_days (start demo_days pie_init) =
          pie_init\<lparr>playing := False, idx := length demo_days - 1, tRef := None\<rparr>"
    using h2 playback_steps [where st = pie_init and days = demo_days and k = 2] by blast
  have i: "pie_init\<lparr>playing := True, idx := 2, tRef := Some \<lparr>delay = 1200, step = 2\<rparr>\<rparr> =
      \<lparr>idx = 2, playing = True, tRef = Some \<lparr>delay = 1200, step = 2\<rparr>\<rparr>"
    by (simp add: pie_init_def)
  have j: "pie_init\<lparr>playing := False, idx := length demo_days - 1, tRef := None\<rparr> =
      \<lparr>idx = 3, playing = False, tRef = None\<rparr>"
    by (simp add: pie_init_def demo_length)
  from h1 h2 h3 a b c show ?thesis
    unfolding m i j by blast
qed

section \<open>C5: the fractions of the pie\<close>

text \<open>
  C5, as stated, has the three computed fractions sum to 1. Each fraction is a double:
  the quotient of a count by the total, rounded. For a snapshot of 1 encrypted, 4 pending
  and 1 failed the total is 6 and the fractions are the doubles nearest to 1/6, 2/3 and
  1/6, whose sum is one less two to the power of -54; added as doubles in the order of
  the segments they give 0.9999999999999999, which is one less two to the power of -53.
\<close>

theorem fractions_fall_short_counterexample:
  "(\<exists>v. render sixth_days pie_init = Inr v
        \<and> v_total v = Finite 6
        \<and> map seg_frac (v_segs v) =
            [Finite (6004799503160661 / 36028797018963968),
             Finite (6004799503160661 / 9007199254740992),
             Finite (6004799503160661 / 36028797018963968)])
   \<and> (6004799503160661 / 36028797018963968 + 6004799503160661 / 9007199254740992
        + 6004799503160661 / 36028797018963968 :: rat) = 1 - 1 / 2 ^ 54
   \<and> num_add (num_add (Finite (6004799503160661 / 36028797018963968))
                       (Finite (6004799503160661 / 9007199254740992)))
              (Finite (6004799503160661 / 36028797018963968)) =
       Finite (9007199254740991 / 9007199254740992)
   \<and> Finite (9007199254740991 / 9007199254740992) \<noteq> Finite 1"
proof -
  have r: "idx pie_init < length sixth_days"
    by (simp add: pie_init_def sixth_days_def)
  have d: "\<lparr>day = Finite 1, encrypted = Finite 1, pending = Finite 4, failed = Finite 1\<rparr> =
      sixth_days ! idx pie_init"
    by (simp add: pie_init_def sixth_days_def)
  have t: "Finite 6 = max_one (num_add (num_add
        (encrypted \<lparr>day = Finite 1, encrypted = Finite 1, pending = Finite 4, failed = Finite 1\<rparr>)
        (pending \<lparr>day = Finite 1, encrypted = Finite 1, pending = Finite 4, failed = Finite 1\<rparr>))
        (failed \<lparr>day = Finite 1, encrypted = Finite 1, pending = Finite 4, failed = Finite 1\<rparr>))"
    by (simp add: sixth_total del: num_add.simps max_one.simps)
  have v: "\<exists>v. render sixth_days pie_init = Inr v
        \<and> v_total v = Finite 6
        \<and> map seg_frac (v_segs v) =
            [Finite (6004799503160661 / 36028797018963968),
             Finite (6004799503160661 / 9007199254740992),
             Finite (6004799503160661 / 36028797018963968)]"
    unfolding render_in_range [OF r d t]
    by (simp add: sixth_small sixth_large del: num_div.simps)
  have s: "(6004799503160661 / 36028797018963968 + 6004799503160661 / 9007199254740992
        + 6004799503160661 / 36028797018963968 :: rat) = 1 - 1 / 2 ^ 54"
    by simp
  have n: "Finite (9007199254740991 / 9007199254740992) \<noteq> Finite 1"
    by simp
  from v s sixth_sum n show ?thesis by blast
qed


text \<open>
  C5, amended. For every day snapshot in range whose three counts are natural numbers
  with a sum above zero and below two to the power of 53, the denominator is that sum,
  exactly; each computed fraction is the quotient of its count by the sum, rounded to a
  double, and differs from the quotient by at most two to the power of -53; so the three
  fractions sum to 1 up to three times that tolerance, not in general exactly. For a
  snapshot whose three counts are zero the denominator is 1 and all three fractions are
  zero. The denominator of a snapshot in range is never a zero: the floor of 1 prevents
  the division by zero.
\<close>

theorem pie_fractions:
  "(idx st < length days \<and> encrypted (days ! idx st) = count e \<and>
    pending (days ! idx st) = count p \<and> failed (days ! idx st) = count q \<and>
    0 < e + p + q \<and> e + p + q < 2 ^ 53 \<longrightarrow>
      (\<exists>v a b c. render days st = Inr v
         \<and> v_total v = count (e + p + q)
         \<and> map seg_frac (v_segs v) =
             [num_div (count e) (count (e + p + q)), num_div (count p) (count (e + p + q)),
              num_div (count q) (count (e + p + q))]
         \<and> map value_of (map seg_frac (v_segs v)) = [Some a, Some b, Some c]
         \<and> \<bar>a - rat_of_nat e / rat_of_nat (e + p + q)\<bar> \<le> 1 / 2 ^ 53
         \<and> \<bar>b - rat_of_nat p / rat_of_nat (e + p + q)\<bar> \<le> 1 / 2 ^ 53
         \<and> \<bar>c - rat_of_nat q / rat_of_nat (e + p + q)\<bar> \<le> 1 / 2 ^ 53
         \<and> \<bar>a + b + c - 1\<bar> \<le> 3 / 2 ^ 53))
   \<and> (idx st < length days \<and> encrypted (days ! idx st) = Zero s1 \<and>
       pending (days ! idx st) = Zero s2 \<and> failed (days ! idx st) = Zero s3 \<longrightarrow>
      (\<exists>v. render days st = Inr v \<and> v_total v = Finite 1
         \<and> map seg_frac (v_segs v) = [Zero s1, Zero s2, Zero s3]
         \<and> map value_of (map seg_frac (v_segs v)) = [Some 0, Some 0, Some 0]))
   \<and> (idx st < length days \<longrightarrow>
        (\<exists>v. render days st = Inr v \<and> v_total v \<noteq> Zero False \<and> v_total v \<noteq> Zero True))"
proof -
  let ?d = "days ! idx st"
  let ?s = "e + p + q"
  have pos: "\<exists>v a b c. render days st = Inr v
         \<and> v_total v = count ?s
         \<and> map seg_frac (v_segs v) =
             [num_div (count e) (count ?s), num_div (count p) (count ?s),
              num_div (count q) (count ?s)]
         \<and> map value_of (map seg_frac (v_segs v)) = [Some a, Some b, Some c]
         \<and> \<bar>a - rat_of_nat e / rat_of_nat ?s\<bar> \<le> 1 / 2 ^ 53
         \<and> \<bar>b - rat_of_nat p / rat_of_nat ?s\<bar> \<le> 1 / 2 ^ 53
         \<and> \<bar>c - rat_of_nat q / rat_of_nat ?s\<bar> \<le> 1 / 2 ^ 53
         \<and> \<bar>a + b + c - 1\<bar> \<le> 3 / 2 ^ 53"
    if r: "idx st < length days" and fe: "encrypted ?d = count e" and fp: "pending ?d = count p"
      and fq: "failed ?d = count q" and s0: "0 < ?s" and s1: "?s < 2 ^ 53"
  proof -
    from s1 have "e + p < 2 ^ 53" by simp
    then have "num_add (count e) (count p) = count (e + p)" by (rule count_add)
    moreover from s1 have "num_add (count (e + p)) (count q) = count ?s" by (rule count_add)
    ultimately have t: "count ?s =
        max_one (num_add (num_add (encrypted ?d) (pending ?d)) (failed ?d))"
      using s0 by (simp add: fe fp fq count_max_one)
    obtain a where a: "value_of (num_div (count e) (count ?s)) = Some a"
        "\<bar>a - rat_of_nat e / rat_of_nat ?s\<bar> \<le> 1 / 2 ^ 53"
      using count_div [of e ?s] s0 by auto
    obtain b where b: "value_of (num_div (count p) (count ?s)) = Some b"
        "\<bar>b - rat_of_nat p / rat_of_nat ?s\<bar> \<le> 1 / 2 ^ 53"
      using count_div [of p ?s] s0 by auto
    obtain c where c: "value_of (num_div (count q) (count ?s)) = Some c"
        "\<bar>c - rat_of_nat q / rat_of_nat ?s\<bar> \<le> 1 / 2 ^ 53"
      using count_div [of q ?s] s0 by auto
    from s0 have "rat_of_nat e / rat_of_nat ?s + rat_of_nat p / rat_of_nat ?s
        + rat_of_nat q / rat_of_nat ?s = 1"
      by (simp add: add_divide_distrib [symmetric] del: of_nat_add)
    with a(2) b(2) c(2) have "\<bar>a + b + c - 1\<bar> \<le> 3 * (1 / 2 ^ 53)"
      by (rule three_errors)
    then have sum: "\<bar>a + b + c - 1\<bar> \<le> 3 / 2 ^ 53" by simp
    have "render days st = Inr \<lparr>v_total = count ?s,
          v_segs =
            [\<lparr>seg_label = str ''Encrypted'', seg_val = encrypted ?d,
              seg_frac = num_div (encrypted ?d) (count ?s), seg_color = str ''#16c2c2''\<rparr>,
             \<lparr>seg_label = str ''Pending'', seg_val = pending ?d,
              seg_frac = num_div (pending ?d) (count ?s), seg_color = str ''#94a3b8''\<rparr>,
             \<lparr>seg_label = str ''Failed'', seg_val = failed ?d,
              seg_frac = num_div (failed ?d) (count ?s), seg_color = str ''#fbbf24''\<rparr>],
          v_day = day ?d,
          v_percent = num_mul (num_div (encrypted ?d) (count ?s)) (Finite 100),
          v_disabled = playing st\<rparr>"
      using r refl t by (rule render_in_range)
    with a b c sum show ?thesis
      by (simp add: fe fp fq)
  qed
  have zero: "\<exists>v. render days st = Inr v \<and> v_total v = Finite 1
         \<and> map seg_frac (v_segs v) = [Zero s1, Zero s2, Zero s3]
         \<and> map value_of (map seg_frac (v_segs v)) = [Some 0, Some 0, Some 0]"
    if r: "idx st < length days" and z: "encrypted ?d = Zero s1" "pending ?d = Zero s2"
      "failed ?d = Zero s3"
  proof -
    have t: "Finite 1 = max_one (num_add (num_add (encrypted ?d) (pending ?d)) (failed ?d))"
      by (simp add: z)
    show ?thesis
      unfolding render_in_range [OF r refl t] by (simp add: z)
  qed
  have floor: "\<exists>v. render days st = Inr v \<and> v_total v \<noteq> Zero False \<and> v_total v \<noteq> Zero True"
    if r: "idx st < length days"
    unfolding render_in_range [OF r refl refl] by (simp add: max_one_not_zero)
  from pos zero floor show ?thesis by blast
qed


text \<open>
  The amended C5 at the first of the four snapshots (12 + 30 + 3 = 45) and at the
  snapshot of zeros.
\<close>

theorem pie_fractions_witness:
  "idx pie_init < length demo_days
   \<and> encrypted (demo_days ! idx pie_init) = count 12
   \<and> pending (demo_days ! idx pie_init) = count 30
   \<and> failed (demo_days ! idx pie_init) = count 3
   \<and> (0::nat) < 12 + 30 + 3 \<and> (12 + 30 + 3 :: nat) < 2 ^ 53
   \<and> (\<exists>v a b c. render demo_days pie_init = Inr v
          \<and> v_total v = Finite 45
          \<and> map value_of (map seg_frac (v_segs v)) = [Some a, Some b, Some c]
          \<and> \<bar>a + b + c - 1\<bar> \<le> 3 / 2 ^ 53)
   \<and> idx pie_init < length zero_days
   \<and> encrypted (zero_days ! idx pie_init) = Zero False
   \<and> pending (zero_days ! idx pie_init) = Zero False
   \<and> failed (zero_days ! idx pie_init) = Zero False
   \<and> (\<exists>v. render zero_days pie_init = Inr v \<and> v_total v = Finite 1
          \<and> map seg_frac (v_segs v) = [Zero False, Zero False, Zero False])"
proof -
  have h1: "idx pie_init < length demo_days"
    by (simp add: demo_days_def pie_init_def)
  have h2: "encrypted (demo_days ! idx pie_init) = count 12
      \<and> pending (demo_days ! idx pie_init) = count 30
      \<and> failed (demo_days ! idx pie_init) = count 3"
    by (simp add: demo_days_def pie_init_def count_def)
  have h3: "(0::nat) < 12 + 30 + 3 \<and> (12 + 30 + 3 :: nat) < 2 ^ 53"
    by simp
  have c45: "count (12 + 30 + 3) = Finite 45"
    by (simp add: count_def)
  have z1: "idx pie_init < length zero_days"
    by (simp add: zero_days_def pie_init_def)
  have z2: "encrypted (zero_days ! idx pie_init) = Zero False
      \<and> pending (zero_days ! idx pie_init) = Zero False
      \<and> failed (zero_days ! idx pie_init) = Zero False"
    by (simp add: zero_days_def pie_init_def)
  note inst = pie_fractions [where st = pie_init and days = demo_days and e = 12 and p = 30
      and q = 3 and ?s1.0 = False and ?s2.0 = False and ?s3.0 = False, THEN conjunct1]
  have pre: "idx pie_init < length demo_days \<and>
      encrypted (demo_days ! idx pie_init) = count 12 \<and>
      pending (demo_days ! idx pie_init) = count 30 \<and>
      failed (demo_days ! idx pie_init) = count 3 \<and>
      (0::nat) < 12 + 30 + 3 \<and> (12 + 30 + 3 :: nat) < 2 ^ 53"
    using h1 h2 h3 by simp
  from inst pre have "\<exists>v a b c. render demo_days pie_init = Inr v
         \<and> v_total v = count (12 + 30 + 3)
         \<and> map seg_frac (v_segs v) =
             [num_div (count 12) (count (12 + 30 + 3)), num_div (count 30) (count (12 + 30 + 3)),
              num_div (count 3) (count (12 + 30 + 3))]
         \<and> map value_of (map seg_frac (v_segs v)) = [Some a, Some b, Some c]
         \<and> \<bar>a - rat_of_nat 12 / rat_of_nat (12 + 30 + 3)\<bar> \<le> 1 / 2 ^ 53
         \<and> \<bar>b - rat_of_nat 30 / rat_of_nat (12 + 30 + 3)\<bar> \<le> 1 / 2 ^ 53
         \<and> \<bar>c - rat_of_nat 3 / rat_of_nat (12 + 30 + 3)\<bar> \<le> 1 / 2 ^ 53
         \<and> \<bar>a + b + c - 1\<bar> \<le> 3 / 2 ^ 53"
    by (rule mp)
  then obtain v a b c where c: "render demo_days pie_init = Inr v
         \<and> v_total v = count (12 + 30 + 3)
         \<and> map seg_frac (v_segs v) =
             [num_div (count 12) (count (12 + 30 + 3)), num_div (count 30) (count (12 + 30 + 3)),
              num_div (count 3) (count (12 + 30 + 3))]
         \<and> map value_of (map seg_frac (v_segs v)) = [Some a, Some b, Some c]
         \<and> \<bar>a - rat_of_nat 12 / rat_of_nat (12 + 30 + 3)\<bar> \<le> 1 / 2 ^ 53
         \<and> \<bar>b - rat_of_nat 30 / rat_of_nat (12 + 30 + 3)\<bar> \<le> 1 / 2 ^ 53
         \<and> \<bar>c - rat_of_nat 3 / rat_of_nat (12 + 30 + 3)\<bar> \<le> 1 / 2 ^ 53
         \<and> \<bar>a + b + c - 1\<bar> \<le> 3 / 2 ^ 53"
    by (elim exE) (erule that)
  note c1 = c [THEN conjunct1]
    and c2 = c [THEN conjunct2, THEN conjunct1]
    and c4 = c [THEN conjunct2, THEN conjunct2, THEN conjunct2, THEN conjunct1]
    and c8 = c [THEN conjunct2, THEN conjunct2, THEN conjunct2, THEN conjunct2, THEN conjunct2,
      THEN conjunct2, THEN conjunct2]
  have a: "\<exists>v a b c. render demo_days pie_init = Inr v
          \<and> v_total v = count (12 + 30 + 3)
          \<and> map value_of (map seg_frac (v_segs v)) = [Some a, Some b, Some c]
          \<and> \<bar>a + b + c - 1\<bar> \<le> 3 / 2 ^ 53"
    by (intro exI conjI) (rule c1 c2 c4 c8)+
  note instz = pie_fractions [where st = pie_init and days = zero_days and e = 0 and p = 0
      and q = 0 and ?s1.0 = False and ?s2.0 = False and ?s3.0 = False,
      THEN conjunct2, THEN conjunct1]
  have prez: "idx pie_init < length zero_days \<and>
      encrypted (zero_days ! idx pie_init) = Zero False \<and>
      pending (zero_days ! idx pie_init) = Zero False \<and>
      failed (zero_days ! idx pie_init) = Zero False"
    using z1 z2 by simp
  from instz prez have "\<exists>v. render zero_days pie_init = Inr v \<and> v_total v = Finite 1
         \<and> map seg_frac (v_segs v) = [Zero False, Zero False, Zero False]
         \<and> map value_of (map seg_frac (v_segs v)) = [Some 0, Some 0, Some 0]"
    by (rule mp)
  then obtain w where w: "render zero_days pie_init = Inr w \<and> v_total w = Finite 1
         \<and> map seg_frac (v_segs w) = [Zero False, Zero False, Zero False]
         \<and> map value_of (map seg_frac (v_segs w)) = [Some 0, Some 0, Some 0]"
    by (elim exE) (erule that)
  note w1 = w [THEN conjunct1] and w2 = w [THEN conjunct2, THEN conjunct1]
    and w3 = w [THEN conjunct2, THEN conjunct2, THEN conjunct1]
  have b: "\<exists>v. render zero_days pie_init = Inr v \<and> v_total v = Finite 1
          \<and> map seg_frac (v_segs v) = [Zero False, Zero False, Zero False]"
    by (intro exI conjI) (rule w1 w2 w3)+
  from a have a': "\<exists>v a b c. render demo_days pie_init = Inr v
          \<and> v_total v = Finite 45
          \<and> map value_of (map seg_frac (v_segs v)) = [Some a, Some b, Some c]
          \<and> \<bar>a + b + c - 1\<bar> \<le> 3 / 2 ^ 53"
    by (simp only: c45)
  from h1 h2 h3 a' z1 z2 b show ?thesis
    by simp
qed


section \<open>C9: the index stays in range\<close>

text \<open>
  C9. With an empty array of snapshots every render throws: the read of the element at
  the index is out of range whatever the state. With a non-empty array the index starts
  at zero and, after any sequence of starts, timeouts and the teardown, is below the
  length of the array, so that the render succeeds.
\<close>

theorem index_in_range:
  "render [] st = Inl TypeError
   \<and> (days \<noteq> [] \<longrightarrow>
        idx pie_init = 0
        \<and> idx (pie_run days pie_init evs) < length days
        \<and> (\<exists>v. render days (pie_run days pie_init evs) = Inr v))"
proof -
  have empty: "render [] st = Inl TypeError"
    by (simp add: render_out_of_range)
  have inv: "idx (pie_run days pie_init evs) < length days" if "days \<noteq> []"
    using that pie_inv_run [OF pie_inv_init, of days evs] by (simp add: pie_inv_def)
  have ok: "\<exists>v. render days (pie_run days pie_init evs) = Inr v" if "days \<noteq> []"
    using inv [OF that] by (rule render_succeeds)
  have z: "idx pie_init = 0"
    by (simp add: pie_init_def)
  from empty inv ok z show ?thesis by blast
qed

text \<open>
  C9 on the four snapshots, after two playbacks begun (the second one once the first has
  ended) and a third under way.
\<close>

theorem index_in_range_witness:
  "demo_days \<noteq> []
   \<and> pie_run demo_days pie_init [Start, Tick, Tick, Start, Tick, Tick, Tick, Start, Tick] =
       \<lparr>idx = 1, playing = True, tRef = Some \<lparr>delay = 1200, step = 1\<rparr>\<rparr>
   \<and> idx (pie_run demo_days pie_init [Start, Tick, Tick, Start, Tick, Tick, Tick, Start, Tick])
       < length demo_days
   \<and> (\<exists>v. render demo_days
            (pie_run demo_days pie_init [Start, Tick, Tick, Start, Tick, Tick, Tick, Start, Tick]) =
          Inr v)
   \<and> render [] pie_init = Inl TypeError"
proof -
  let ?evs = "[Start, Tick, Tick, Start, Tick, Tick, Tick, Start, Tick]"
  have h: "demo_days \<noteq> []"
    by (simp add: demo_days_def)
  have r: "pie_run demo_days pie_init ?evs =
       \<lparr>idx = 1, playing = True, tRef = Some \<lparr>delay = 1200, step = 1\<rparr>\<rparr>"
    by (simp add: pie_run_def pie_init_def start_def tick_def demo_length Let_def)
  from h r index_in_range [where days = demo_days and evs = "?evs" and st = pie_init]
  show ?thesis by blast
qed

section \<open>C4: entries of the call history\<close>

text \<open>
  C4, as stated, gives every response of status 200 an entry with \<open>ok\<close> true and status
  200 and leaves the panel error unset after it. Two cases of the source differ. When the
  response arrives with status 200 and reading its body throws, the handler of the outer
  \<^verbatim>\<open>try\<close> overwrites what was copied from the response: the entry has \<open>ok\<close> false and
  status 0, and the run sets the error. And since nothing serialises the runs, a failing
  run clicked first can set the error after a later run has cleared it: here the run of a
  status 200 whose body is read ends with the error of the earlier run in place.
\<close>

theorem unread_body_counterexample:
  "\<not> ok (call demo_rt health_url
           (Resolved 200 (str ''OK'') (Inl (Thrown (Some (str ''aborted''))))) 0 8 demo_now)
   \<and> status (call demo_rt health_url
           (Resolved 200 (str ''OK'') (Inl (Thrown (Some (str ''aborted''))))) 0 8 demo_now) = 0
   \<and> error (run demo_rt (str ''https://lab.example'') (str ''/api/health'')
           (Resolved 200 (str ''OK'') (Inl (Thrown (Some (str ''aborted''))))) 0 8 demo_now
           panel_init) \<noteq> None
   \<and> ok (call demo_rt health_url (Resolved 200 (str ''OK'') (Inr (str ''plain''))) 0 8 demo_now)
   \<and> \<not> ok (call demo_rt health_url (Rejected (Thrown (Some (str ''Failed to fetch'')))) 0 3 demo_now)
   \<and> error (panel_run panel_init
        [Clicked,
         Returned (call demo_rt health_url (Rejected (Thrown (Some (str ''Failed to fetch'')))) 0 3
                     demo_now),
         Clicked,
         Ended (call demo_rt health_url (Rejected (Thrown (Some (str ''Failed to fetch'')))) 0 3
                  demo_now),
         Returned (call demo_rt health_url (Resolved 200 (str ''OK'') (Inr (str ''plain''))) 0 8
                     demo_now),
         Ended (call demo_rt health_url (Resolved 200 (str ''OK'') (Inr (str ''plain''))) 0 8
                  demo_now)]) =
       Some (str ''Request failed (0 Failed to fetch)'')"
proof -
  let ?unread = "Resolved 200 (str ''OK'') (Inl (Thrown (Some (str ''aborted''))))"
  let ?good = "call demo_rt health_url (Resolved 200 (str ''OK'') (Inr (str ''plain''))) 0 8 demo_now"
  let ?bad = "call demo_rt health_url (Rejected (Thrown (Some (str ''Failed to fetch'')))) 0 3 demo_now"
  have u: "\<not> ok (call demo_rt u ?unread 0 8 demo_now) \<and> status (call demo_rt u ?unread 0 8 demo_now) = 0"
    for u
    by (simp add: call_def call_failed_def)
  have ue: "error (run demo_rt (str ''https://lab.example'') (str ''/api/health'') ?unread 0 8 demo_now
      panel_init) \<noteq> None"
    by (simp add: run_error u)
  have g: "ok ?good"
    by (simp add: call_resolved r_ok_def)
  have b: "\<not> ok ?bad"
    by (simp add: call_rejected call_failed_def)
  have ft: "failure_text ?bad = str ''Request failed (0 Failed to fetch)''"
    by (simp add: call_rejected call_failed_def failure_text_def digit_def str_def)
  have "error (panel_run panel_init [Clicked, Returned ?bad, Clicked, Ended ?bad, Returned ?good, Ended ?good]) =
      Some (failure_text ?bad)"
    using g b by (simp add: panel_run_def run_begin_def run_returned_def run_end_def)
  with u [of health_url] ue g b ft show ?thesis
    by simp
qed

text \<open>
  C4, amended. A response of any status whose body is read yields a history entry with
  the response's status and with \<open>ok\<close> equal to the response's ok indicator; with status
  200 that is \<open>ok\<close> true and status 200. A request that throws, in \<^verbatim>\<open>fetch\<close> or while
  the body of a response of whatever status is read, yields an entry with \<open>ok\<close> false and
  status 0. Every run appends exactly its entry. The last step of a run whose entry has
  \<open>ok\<close> true leaves the panel error as it finds it, so the error is unset when the run
  ends, provided no failing run ends between its click and its end, and in particular
  when the run is alone. The last step of a run whose entry has \<open>ok\<close> false sets the
  panel error to a non-empty string.
\<close>

theorem diagnostics_entry:
  "ok (call rt u (Resolved st stx (Inr raw)) t0 t1 now) = r_ok st
   \<and> status (call rt u (Resolved st stx (Inr raw)) t0 t1 now) = st
   \<and> ok (call rt u (Resolved 200 stx (Inr raw)) t0 t1 now)
   \<and> status (call rt u (Resolved 200 stx (Inr raw)) t0 t1 now) = 200
   \<and> (awaited_text r = Inl e \<longrightarrow>
        \<not> ok (call rt u r t0 t1 now) \<and> status (call rt u r t0 t1 now) = 0)
   \<and> history (run rt base path r t0 t1 now p) = history p @ [call rt (base @ path) r t0 t1 now]
   \<and> run rt base path r t0 t1 now p =
       panel_run p [Clicked, Returned (call rt (base @ path) r t0 t1 now),
                    Ended (call rt (base @ path) r t0 t1 now)]
   \<and> error (run rt base path (Resolved 200 stx (Inr raw)) t0 t1 now p) = None
   \<and> run_end (call rt u (Resolved 200 stx (Inr raw)) t0 t1 now) p = p
   \<and> (quiet evs \<longrightarrow>
        error (panel_run p
          (Clicked # evs @ [Ended (call rt u (Resolved 200 stx (Inr raw)) t0 t1 now)])) = None)
   \<and> (awaited_text r = Inl e \<longrightarrow>
        error (run rt base path r t0 t1 now p) =
          Some (failure_text (call rt (base @ path) r t0 t1 now))
        \<and> error (run_end (call rt u r t0 t1 now) p) = Some (failure_text (call rt u r t0 t1 now))
        \<and> failure_text (call rt u r t0 t1 now) \<noteq> [])"
proof -
  let ?good = "call rt u (Resolved 200 stx (Inr raw)) t0 t1 now"
  have a: "ok (call rt u (Resolved st stx (Inr raw)) t0 t1 now) = r_ok st
      \<and> status (call rt u (Resolved st stx (Inr raw)) t0 t1 now) = st" for u st
    by (simp add: call_resolved)
  have b: "r_ok 200"
    by (simp add: r_ok_def)
  have g: "ok (call rt u (Resolved 200 stx (Inr raw)) t0 t1 now)" for u
    by (simp add: call_resolved b)
  have c: "error (run rt base path (Resolved 200 stx (Inr raw)) t0 t1 now p) = None"
    by (simp add: run_error g)
  have c': "run_end ?good p = p"
    using g by (rule run_end_ok)
  have d: "\<not> ok (call rt u r t0 t1 now) \<and> status (call rt u r t0 t1 now) = 0"
    if "awaited_text r = Inl e" for u
    using that by (simp add: call_thrown call_failed_def)
  have s: "run rt base path r t0 t1 now p =
       panel_run p [Clicked, Returned (call rt (base @ path) r t0 t1 now),
                    Ended (call rt (base @ path) r t0 t1 now)]"
    by (simp add: run_def run_steps Let_def)
  have q: "error (panel_run p (Clicked # evs @ [Ended ?good])) = None" if "quiet evs"
  proof -
    have "error (panel_run (run_begin p) evs) = None"
      using _ that by (rule quiet_keeps_unset) (simp add: run_begin_def)
    then show ?thesis
      using g [of u] by (simp add: panel_run_def run_end_ok)
  qed
  have f: "error (run rt base path r t0 t1 now p) =
          Some (failure_text (call rt (base @ path) r t0 t1 now))
        \<and> error (run_end (call rt u r t0 t1 now) p) = Some (failure_text (call rt u r t0 t1 now))
        \<and> failure_text (call rt u r t0 t1 now) \<noteq> []"
    if "awaited_text r = Inl e"
    using d [OF that] by (simp add: run_error run_end_failed failure_text_nonempty)
  have a200: "status (call rt u (Resolved 200 stx (Inr raw)) t0 t1 now) = 200"
    by (simp add: call_resolved)
  have h: "history (run rt base path r t0 t1 now p) =
      history p @ [call rt (base @ path) r t0 t1 now]"
    by (rule run_history)
  from a [of u st] a200 g [of u] c c' d [of u] h s q f show ?thesis
    by blast
qed

text \<open>
  The amended C4 at the health check: a rejected \<^verbatim>\<open>fetch\<close> and an unread body of
  status 200 both give \<open>ok\<close> false and status 0, and the run alone ends with the error
  text; a run of status 200 clears the error and, with another successful run returning
  and a further click in between, ends with it unset.
\<close>

theorem diagnostics_entry_witness:
  "awaited_text (Rejected (Thrown (Some (str ''Failed to fetch'')))) =
     Inl (Thrown (Some (str ''Failed to fetch'')))
   \<and> \<not> ok (call demo_rt health_url (Rejected (Thrown (Some (str ''Failed to fetch'')))) 0 3 demo_now)
   \<and> status (call demo_rt health_url (Rejected (Thrown (Some (str ''Failed to fetch'')))) 0 3
        demo_now) = 0
   \<and> error (run demo_rt (str ''https://lab.example'') (str ''/api/health'')
        (Rejected (Thrown (Some (str ''Failed to fetch'')))) 0 3 demo_now panel_init) =
       Some (str ''Request failed (0 Failed to fetch)'')
   \<and> awaited_text (Resolved 200 (str ''OK'') (Inl (Thrown (Some (str ''aborted''))))) =
       Inl (Thrown (Some (str ''aborted'')))
   \<and> \<not> ok (call demo_rt health_url
            (Resolved 200 (str ''OK'') (Inl (Thrown (Some (str ''aborted''))))) 0 8 demo_now)
   \<and> quiet [Returned (call demo_rt health_url (Resolved 204 (str ''No Content'') (Inr [])) 0 5
                       demo_now), Clicked]
   \<and> error (panel_run panel_init
        (Clicked #
         [Returned (call demo_rt health_url (Resolved 204 (str ''No Content'') (Inr [])) 0 5
                      demo_now), Clicked]
         @ [Ended (call demo_rt health_url (Resolved 200 (str ''OK'') (Inr (str ''plain''))) 0 8
                     demo_now)])) = None"
proof -
  let ?e = "Thrown (Some (str ''Failed to fetch''))"
  let ?a = "Thrown (Some (str ''aborted''))"
  let ?evs = "[Returned (call demo_rt health_url (Resolved 204 (str ''No Content'') (Inr [])) 0 5
                       demo_now), Clicked]"
  have h1: "awaited_text (Rejected ?e) = Inl ?e"
    by (simp add: awaited_text_def)
  have h2: "awaited_text (Resolved 200 (str ''OK'') (Inl ?a)) = Inl ?a"
    by (simp add: awaited_text_def)
  have h3: "quiet ?evs"
    by (simp add: quiet_def)
  have u: "str ''https://lab.example'' @ str ''/api/health'' = health_url"
    by (simp add: health_url_def str_def)
  have ft: "failure_text (call demo_rt health_url (Rejected ?e) 0 3 demo_now) =
      str ''Request failed (0 Failed to fetch)''"
    by (simp add: call_rejected call_failed_def failure_text_def digit_def str_def)
  have r1: "\<not> ok (call demo_rt health_url (Rejected ?e) 0 3 demo_now)
      \<and> status (call demo_rt health_url (Rejected ?e) 0 3 demo_now) = 0"
    using h1 diagnostics_entry [where r = "Rejected ?e" and e = "?e" and rt = demo_rt
        and u = health_url and ?t0.0 = 0 and ?t1.0 = 3 and now = demo_now]
    by blast
  have r2: "error (run demo_rt (str ''https://lab.example'') (str ''/api/health'') (Rejected ?e) 0 3
        demo_now panel_init) =
      Some (failure_text (call demo_rt (str ''https://lab.example'' @ str ''/api/health'')
        (Rejected ?e) 0 3 demo_now))"
    using h1 diagnostics_entry [where r = "Rejected ?e" and e = "?e" and rt = demo_rt
        and base = "str ''https://lab.example''" and path = "str ''/api/health''"
        and ?t0.0 = 0 and ?t1.0 = 3 and now = demo_now and p = panel_init]
    by blast
  have r3: "\<not> ok (call demo_rt health_url (Resolved 200 (str ''OK'') (Inl ?a)) 0 8 demo_now)"
    using h2 diagnostics_entry [where r = "Resolved 200 (str ''OK'') (Inl ?a)" and e = "?a"
        and rt = demo_rt and u = health_url and ?t0.0 = 0 and ?t1.0 = 8 and now = demo_now]
    by blast
  have r4: "error (panel_run panel_init
        (Clicked # ?evs
         @ [Ended (call demo_rt health_url (Resolved 200 (str ''OK'') (Inr (str ''plain''))) 0 8
                     demo_now)])) = None"
    using h3 diagnostics_entry [where evs = "?evs" and rt = demo_rt and u = health_url
        and stx = "str ''OK''" and raw = "str ''plain''" and ?t0.0 = 0 and ?t1.0 = 8
        and now = demo_now and p = panel_init]
    by blast
  from r2 have r2': "error (run demo_rt (str ''https://lab.example'') (str ''/api/health'')
        (Rejected ?e) 0 3 demo_now panel_init) = Some (str ''Request failed (0 Failed to fetch)'')"
    by (simp only: u ft)
  from h1 h2 h3 r1 r2' r3 r4 show ?thesis
    by blast
qed

section \<open>C10: what the probe skips\<close>

text \<open>
  C10. The probe skips a field only when it is absent (undefined) or null: a body whose
  reply field is absent or null resolves to the first present, non-null value among the
  fields after it, else to the raw text. A reply field that is the empty string is
  selected as the resolved text, and the assistant message then carries
  \<^verbatim>\<open>"(no content)"\<close> in its place. Any other value of the reply field, a string
  or not, is selected as it is; the assistant message carries it unless it is falsy.
\<close>

theorem nullish_probe:
  "(raw \<noteq> [] \<and> JSON_parse rt raw = Some (JObject ps) \<and>
      (map_of ps (str ''reply'') = None \<or> map_of ps (str ''reply'') = Some JNull)
      \<longrightarrow> resolve_reply rt raw =
           first_present [field (JObject ps) (str ''content''), field (JObject ps) (str ''message''),
                          nested_choice (JObject ps)] (JString raw))
   \<and> (raw \<noteq> [] \<and> JSON_parse rt raw = Some (JObject ps) \<and>
        map_of ps (str ''reply'') = Some (JString [])
        \<longrightarrow> resolve_reply rt raw = JString [] \<and>
            assistant_content (resolve_reply rt raw) = JString (str ''(no content)''))
   \<and> (raw \<noteq> [] \<and> JSON_parse rt raw = Some (JObject ps) \<and>
        map_of ps (str ''reply'') = Some v \<and> v \<noteq> JNull
        \<longrightarrow> resolve_reply rt raw = v \<and>
            assistant_content (resolve_reply rt raw) =
              (if truthy v then v else JString (str ''(no content)'')))"
proof -
  have skip: "resolve_reply rt raw =
           first_present [field (JObject ps) (str ''content''), field (JObject ps) (str ''message''),
                          nested_choice (JObject ps)] (JString raw)"
    if "raw \<noteq> []" "JSON_parse rt raw = Some (JObject ps)"
       "map_of ps (str ''reply'') = None \<or> map_of ps (str ''reply'') = Some JNull"
    using that by (auto simp add: resolve_reply_parsed field_def)
  have sel: "resolve_reply rt raw = v"
    if "raw \<noteq> []" "JSON_parse rt raw = Some (JObject ps)"
       "map_of ps (str ''reply'') = Some v" "v \<noteq> JNull" for v
    using that by (cases v) (simp_all add: resolve_reply_parsed field_def)
  have empty: "assistant_content (JString []) = JString (str ''(no content)'')"
    by (simp add: assistant_content_def)
  show ?thesis
    using skip sel [of "JString []"] sel [of v] empty
    by (auto simp add: assistant_content_def)
qed

text \<open>
  C10 at three bodies: a null reply gives way to the content field, an empty reply is
  selected and replaced by the placeholder in the message, the number 7 is selected and
  carried as it is.
\<close>

theorem nullish_probe_witness:
  "JSON_parse null_reply_rt (str ''{\"reply\":null,\"content\":\"B\"}'') =
     Some (JObject [(str ''reply'', JNull), (str ''content'', JString (str ''B''))])
   \<and> resolve_reply null_reply_rt (str ''{\"reply\":null,\"content\":\"B\"}'') = JString (str ''B'')
   \<and> JSON_parse null_reply_rt (str ''{\"reply\":\"\",\"content\":\"B\"}'') =
     Some (JObject [(str ''reply'', JString []), (str ''content'', JString (str ''B''))])
   \<and> resolve_reply null_reply_rt (str ''{\"reply\":\"\",\"content\":\"B\"}'') = JString []
   \<and> assistant_content (resolve_reply null_reply_rt (str ''{\"reply\":\"\",\"content\":\"B\"}'')) =
       JString (str ''(no content)'')
   \<and> JSON_parse null_reply_rt (str ''{\"reply\":7,\"content\":\"B\"}'') =
     Some (JObject [(str ''reply'', JNumber 7), (str ''content'', JString (str ''B''))])
   \<and> resolve_reply null_reply_rt (str ''{\"reply\":7,\"content\":\"B\"}'') = JNumber 7
   \<and> assistant_content (resolve_reply null_reply_rt (str ''{\"reply\":7,\"content\":\"B\"}'')) = JNumber 7"
proof -
  let ?ps1 = "[(str ''reply'', JNull), (str ''content'', JString (str ''B''))]"
  let ?ps2 = "[(str ''reply'', JString []), (str ''content'', JString (str ''B''))]"
  let ?ps3 = "[(str ''reply'', JNumber 7), (str ''content'', JString (str ''B''))]"
  have p1: "str ''{\"reply\":null,\"content\":\"B\"}'' \<noteq> [] \<and>
      JSON_parse null_reply_rt (str ''{\"reply\":null,\"content\":\"B\"}'') = Some (JObject ?ps1) \<and>
      map_of ?ps1 (str ''reply'') = Some JNull"
    by (simp add: null_reply_rt_def null_reply_parse_def str_def)
  have p2: "str ''{\"reply\":\"\",\"content\":\"B\"}'' \<noteq> [] \<and>
      JSON_parse null_reply_rt (str ''{\"reply\":\"\",\"content\":\"B\"}'') = Some (JObject ?ps2) \<and>
      map_of ?ps2 (str ''reply'') = Some (JString [])"
    by (simp add: null_reply_rt_def null_reply_parse_def str_def)
  have p3: "str ''{\"reply\":7,\"content\":\"B\"}'' \<noteq> [] \<and>
      JSON_parse null_reply_rt (str ''{\"reply\":7,\"content\":\"B\"}'') = Some (JObject ?ps3) \<and>
      map_of ?ps3 (str ''reply'') = Some (JNumber 7) \<and> JNumber 7 \<noteq> JNull"
    by (simp add: null_reply_rt_def null_reply_parse_def str_def)
  have f1: "first_present [field (JObject ?ps1) (str ''content''), field (JObject ?ps1) (str ''message''),
                          nested_choice (JObject ?ps1)] (JString raw) = JString (str ''B'')" for raw
    by (simp add: field_def str_def)
  have r1: "resolve_reply null_reply_rt (str ''{\"reply\":null,\"content\":\"B\"}'') =
      first_present [field (JObject ?ps1) (str ''content''), field (JObject ?ps1) (str ''message''),
                     nested_choice (JObject ?ps1)] (JString (str ''{\"reply\":null,\"content\":\"B\"}''))"
    using p1 nullish_probe [where rt = null_reply_rt and ps = "?ps1"
        and raw = "str ''{\"reply\":null,\"content\":\"B\"}''" and v = JNull]
    by blast
  have r2: "resolve_reply null_reply_rt (str ''{\"reply\":\"\",\"content\":\"B\"}'') = JString [] \<and>
      assistant_content (resolve_reply null_reply_rt (str ''{\"reply\":\"\",\"content\":\"B\"}'')) =
        JString (str ''(no content)'')"
    using p2 nullish_probe [where rt = null_reply_rt and ps = "?ps2"
        and raw = "str ''{\"reply\":\"\",\"content\":\"B\"}''" and v = JNull]
    by blast
  have r3: "resolve_reply null_reply_rt (str ''{\"reply\":7,\"content\":\"B\"}'') = JNumber 7 \<and>
      assistant_content (resolve_reply null_reply_rt (str ''{\"reply\":7,\"content\":\"B\"}'')) =
        (if truthy (JNumber 7) then JNumber 7 else JString (str ''(no content)''))"
    using p3 nullish_probe [where rt = null_reply_rt and ps = "?ps3"
        and raw = "str ''{\"reply\":7,\"content\":\"B\"}''" and v = "JNumber 7"]
    by blast
  from r3 have r3': "resolve_reply null_reply_rt (str ''{\"reply\":7,\"content\":\"B\"}'') = JNumber 7 \<and>
      assistant_content (resolve_reply null_reply_rt (str ''{\"reply\":7,\"content\":\"B\"}'')) = JNumber 7"
    by (simp add: assistant_content_def)
  from r1 have r1': "resolve_reply null_reply_rt (str ''{\"reply\":null,\"content\":\"B\"}'') = JString (str ''B'')"
    by (simp only: f1)
  from p1 p2 p3 r1' r2 r3' show ?thesis
    by blast
qed

end
